theory Spec2Isabelle
  imports Main "HOL-Library.Sublist" "HOL-Library.Monad_Syntax" "HOL-Library.Multiset"
begin

section \<open>Network-info resolution for units (apiserver/facades/agent/uniter)\<close>

subsection \<open>Order-preserving deduplication\<close>

text \<open>
  \<^verbatim>\<open>dedupStringListPreservingOrder\<close>: the loop over \<^verbatim>\<open>values\<close> with the set
  \<^verbatim>\<open>seen\<close> and the slice \<^verbatim>\<open>out\<close> as loop state.
\<close>

fun dedupStringLoop :: "string set \<Rightarrow> string list \<Rightarrow> string list \<Rightarrow> string list" where
  "dedupStringLoop seen out [] = out"
| "dedupStringLoop seen out (v # values) =
     (if v \<in> seen then dedupStringLoop seen out values
      else dedupStringLoop (insert v seen) (out @ [v]) values)"

definition dedupStringListPreservingOrder :: "string list \<Rightarrow> string list" where
  "dedupStringListPreservingOrder values = dedupStringLoop {} [] values"

text \<open>\<^verbatim>\<open>params.InterfaceAddress\<close>.\<close>

record InterfaceAddress =
  Hostname :: string
  Address :: string
  CIDR :: string

fun dedupAddrLoop ::
  "string set \<Rightarrow> InterfaceAddress list \<Rightarrow> InterfaceAddress list \<Rightarrow> InterfaceAddress list" where
  "dedupAddrLoop seenAddrSet uniqueAddrList [] = uniqueAddrList"
| "dedupAddrLoop seenAddrSet uniqueAddrList (addr # addrList) =
     (if Address addr \<in> seenAddrSet then dedupAddrLoop seenAddrSet uniqueAddrList addrList
      else dedupAddrLoop (insert (Address addr) seenAddrSet) (uniqueAddrList @ [addr]) addrList)"

definition dedupAddrList :: "InterfaceAddress list \<Rightarrow> InterfaceAddress list" where
  "dedupAddrList addrList =
     (if length addrList \<le> 1 then addrList else dedupAddrLoop {} [] addrList)"

text \<open>
  Reference description of the result: the element at index \<open>i\<close> is kept exactly when
  no element before it has the same key.
\<close>

definition firstOccurrences :: "('a \<Rightarrow> 'k) \<Rightarrow> 'a list \<Rightarrow> 'a list" where
  "firstOccurrences key xs =
     map (\<lambda>i. xs ! i) (filter (\<lambda>i. key (xs ! i) \<notin> key ` set (take i xs)) [0..<length xs])"

text \<open>The same, as a recursion that carries the keys already seen.\<close>

fun keepUnseen :: "('a \<Rightarrow> 'k) \<Rightarrow> 'k set \<Rightarrow> 'a list \<Rightarrow> 'a list" where
  "keepUnseen key seen [] = []"
| "keepUnseen key seen (x # xs) =
     (if key x \<in> seen then keepUnseen key seen xs
      else x # keepUnseen key (insert (key x) seen) xs)"

subsection \<open>Errors\<close>

text \<open>
  Go errors as values. The constructor is the cause of the error (what
  \<^verbatim>\<open>errors.Cause\<close> yields), the string is its message. \<^verbatim>\<open>errors.Trace\<close> only
  annotates an error with a location and leaves its cause and message unchanged, so it is the
  identity of the model.
\<close>

datatype error =
    NoAddress string
  | NotFound string
  | NotValid string
  | Fatal string

text \<open>
  Modelled from the spec: \<^verbatim>\<open>network.IsNoAddressError\<close> and \<^verbatim>\<open>errors.IsNotFound\<close>
  are not under src/. The spec's "address not yet assigned" condition is the cause
  \<open>NoAddress\<close>, its "not-found condition" the cause \<open>NotFound\<close>.
\<close>

fun IsNoAddressError :: "error \<Rightarrow> bool" where
  "IsNoAddressError (NoAddress msg) = True"
| "IsNoAddressError err = False"

fun IsNotFound :: "error \<Rightarrow> bool" where
  "IsNotFound (NotFound msg) = True"
| "IsNotFound err = False"

subsection \<open>Addresses\<close>

text \<open>
  \<^verbatim>\<open>corenetwork.Scope\<close> and \<^verbatim>\<open>corenetwork.SpaceAddress\<close>. The code under
  src/ reads only the value and the scope of an address.
\<close>

datatype Scope =
    ScopePublic
  | ScopeFanLocal
  | ScopeMachineLocal
  | ScopeLinkLocal
  | ScopeUnknown

record SpaceAddress =
  Value :: string
  Scope :: Scope

text \<open>
  Modelled from the spec: \<^verbatim>\<open>corenetwork.SortAddresses\<close> is not under src/. The spec
  (4.2) describes a stable sort ascending by scope rank, and (3) gives the ranks in the order
  public, overlay-local, machine-local, link-local, unknown.
\<close>

fun scopeRank :: "Scope \<Rightarrow> nat" where
  "scopeRank ScopePublic = 0"
| "scopeRank ScopeFanLocal = 1"
| "scopeRank ScopeMachineLocal = 2"
| "scopeRank ScopeLinkLocal = 3"
| "scopeRank ScopeUnknown = 4"

definition SortAddresses :: "SpaceAddress list \<Rightarrow> SpaceAddress list" where
  "SortAddresses addrs = sort_key (\<lambda>a. scopeRank (Scope a)) addrs"

subsection \<open>The address poller\<close>

text \<open>
  \<^verbatim>\<open>retry.CallArgs\<close> as \<^verbatim>\<open>defaultRetryFactory\<close> fills it: the delay between
  attempts and the maximum total duration, in time-units (seconds) of the injected clock.
  \<^verbatim>\<open>Func\<close> and \<^verbatim>\<open>IsFatalError\<close> are set by \<^verbatim>\<open>pollForAddress\<close> and are
  arguments of the loop below.
\<close>

record CallArgs =
  Delay :: nat
  MaxDuration :: nat

definition defaultRetryFactory :: CallArgs where
  "defaultRetryFactory = \<lparr> Delay = 3, MaxDuration = 30 \<rparr>"

text \<open>
  A fetcher is a Go closure \<^verbatim>\<open>func() (SpaceAddress, error)\<close> over the entity store,
  whose answer may change from one invocation to the next. The model gives, for the
  \<open>i\<close>-th invocation (from 0), the outcome and the time the invocation takes on the clock.
\<close>

type_synonym 'a fetcher = "nat \<Rightarrow> (error + 'a) \<times> nat"

text \<open>
  Modelled from the spec: \<^verbatim>\<open>retry.Call\<close> (package github.com/juju/retry) is not under
  src/. Spec 4.1: the function is invoked repeatedly with a fixed delay between attempts
  until it returns a non-error result or the total elapsed-time budget is exhausted; a fatal
  error aborts the loop at once and is surfaced; on timeout the last error is returned;
  attempts are sequential with a blocking sleep between them.

  \<open>i\<close> counts the invocations made so far, \<open>t\<close> is the time elapsed since the call
  started. The loop gives up when sleeping once more would exceed the budget. The result
  carries the outcome of the last invocation (in Go the closure stores the address in a
  captured variable and \<^verbatim>\<open>retry.Call\<close> returns the error), the index of the last
  invocation and the time elapsed at return. Nothing stops the loop when the delay and the
  invocations take no time; not returning is the value \<open>None\<close>.
\<close>

partial_function (option) retryLoop ::
  "CallArgs \<Rightarrow> (error \<Rightarrow> bool) \<Rightarrow> 'a fetcher \<Rightarrow> nat \<Rightarrow> nat \<Rightarrow> ((error + 'a) \<times> nat \<times> nat) option" where
  "retryLoop args isFatalError func i t =
     (case fst (func i) of
        Inr a \<Rightarrow> Some (Inr a, i, t + snd (func i))
      | Inl err \<Rightarrow>
          if isFatalError err then Some (Inl err, i, t + snd (func i))
          else if t + snd (func i) + Delay args > MaxDuration args
            then Some (Inl err, i, t + snd (func i))
          else retryLoop args isFatalError func (Suc i) (t + snd (func i) + Delay args))"

definition retryCall ::
  "CallArgs \<Rightarrow> (error \<Rightarrow> bool) \<Rightarrow> 'a fetcher \<Rightarrow> ((error + 'a) \<times> nat \<times> nat) option" where
  "retryCall args isFatalError func = retryLoop args isFatalError func 0 0"

text \<open>
  \<^verbatim>\<open>pollForAddress\<close>, with the retry strategy of the receiver as first argument. An
  error is fatal for the loop iff it is not a no-address error. The Go function returns the
  captured address together with the error of \<^verbatim>\<open>retry.Call\<close>; its callers read the
  address only when the error is nil, so the model returns one or the other.
\<close>

definition pollIsFatalError :: "error \<Rightarrow> bool" where
  "pollIsFatalError err = (\<not> IsNoAddressError err)"

definition pollForAddress :: "CallArgs \<Rightarrow> 'a fetcher \<Rightarrow> (error + 'a) option" where
  "pollForAddress retryArg fetcher =
     map_option fst (retryCall retryArg pollIsFatalError fetcher)"

subsection \<open>The entity store\<close>

text \<open>
  The parts of \<^verbatim>\<open>state.Relation\<close>, \<^verbatim>\<open>state.Unit\<close>, \<^verbatim>\<open>state.Application\<close>
  and \<^verbatim>\<open>state.State\<close> that the resolver calls, each lookup with the result it yields.
  The store is a snapshot for the duration of a request, except for the two address accessors
  that are polled.
\<close>

record Relation =
  RelationTagId :: string
  Endpoint :: "string \<Rightarrow> error + string"
  RemoteApplication :: "error + bool"

record Unit =
  ApplicationName :: string
  PublicAddress :: "SpaceAddress fetcher"
  PrivateAddress :: "SpaceAddress fetcher"
  AllAddresses :: "error + SpaceAddress list"

record Application =
  ApplicationConfig :: "error + (string \<rightharpoonup> string)"

record State =
  RelationById :: "int \<Rightarrow> error + Relation"
  RelationEgressNetworks :: "string \<Rightarrow> error + string list"

record NetworkInfoBase =
  st :: State
  retryFactory :: CallArgs
  unit :: Unit
  app :: Application
  defaultEgress :: "string list"
  bindings :: "string \<rightharpoonup> string"

text \<open>Constants of packages that are not under src/, with their values there.\<close>

definition AlphaSpaceId :: string where
  "AlphaSpaceId = ''0''"

definition ServiceTypeConfigKey :: string where
  "ServiceTypeConfigKey = ''kubernetes-service-type''"

definition ServiceTypeLoadBalancer :: string where
  "ServiceTypeLoadBalancer = ''LoadBalancer''"

definition ServiceTypeExternalName :: string where
  "ServiceTypeExternalName = ''ExternalName''"

text \<open>
  \<^verbatim>\<open>network.FormatAsCIDR\<close> is not under src/. The formatter of one address (the
  spec's \<^verbatim>\<open>toCIDR\<close>, which may fail) is a parameter; the list version stops at the
  first failure.
\<close>

fun FormatAsCIDR :: "(string \<Rightarrow> error + string) \<Rightarrow> string list \<Rightarrow> error + string list" where
  "FormatAsCIDR toCIDR [] = Inr []"
| "FormatAsCIDR toCIDR (a # addresses) =
     (case toCIDR a of
        Inl err \<Rightarrow> Inl err
      | Inr cidr \<Rightarrow>
          (case FormatAsCIDR toCIDR addresses of
             Inl err \<Rightarrow> Inl err
           | Inr result \<Rightarrow> Inr (cidr # result)))"

subsection \<open>The relation network resolver\<close>

definition getRelationAndEndpointName :: "NetworkInfoBase \<Rightarrow> int \<Rightarrow> error + Relation \<times> string" where
  "getRelationAndEndpointName n relationID =
     (case RelationById (st n) relationID of
        Inl err \<Rightarrow> Inl err
      | Inr rel \<Rightarrow>
          (case Endpoint rel (ApplicationName (unit n)) of
             Inl err \<Rightarrow> Inl err
           | Inr endpointName \<Rightarrow> Inr (rel, endpointName)))"

definition getRelationEgressSubnets :: "NetworkInfoBase \<Rightarrow> Relation \<Rightarrow> error + string list" where
  "getRelationEgressSubnets n rel =
     (case RelationEgressNetworks (st n) (RelationTagId rel) of
        Inl err \<Rightarrow> if IsNotFound err then Inr (defaultEgress n) else Inl err
      | Inr cidrs \<Rightarrow> Inr cidrs)"

text \<open>
  \<^verbatim>\<open>maybeGetUnitAddress\<close>. A failed poll is logged and otherwise ignored; the private
  address is polled only when the public one gave no usable address. \<open>[]\<close> is the nil
  slice.
\<close>

definition pollPrivateAddress :: "NetworkInfoBase \<Rightarrow> (error + SpaceAddress list) option" where
  "pollPrivateAddress n =
     do {
       polled \<leftarrow> pollForAddress (retryFactory n) (PrivateAddress (unit n));
       Some (case polled of
               Inl err \<Rightarrow> Inr []
             | Inr address \<Rightarrow> if Value address \<noteq> [] then Inr [address] else Inr [])
     }"

definition maybeGetUnitAddress ::
  "NetworkInfoBase \<Rightarrow> Relation \<Rightarrow> (error + SpaceAddress list) option" where
  "maybeGetUnitAddress n rel =
     (case RemoteApplication rel of
        Inl err \<Rightarrow> Some (Inl err)
      | Inr crossModel \<Rightarrow>
          if \<not> crossModel then Some (Inr [])
          else do {
            polled \<leftarrow> pollForAddress (retryFactory n) (PublicAddress (unit n));
            case polled of
              Inl err \<Rightarrow> pollPrivateAddress n
            | Inr address \<Rightarrow>
                if Value address \<noteq> [] then Some (Inr [address]) else pollPrivateAddress n
          })"

text \<open>
  \<^verbatim>\<open>NetworksForRelation\<close>; the binding argument is ignored by the source. A failure of
  \<^verbatim>\<open>AllAddresses\<close> is logged and leaves the ingress as it is.
\<close>

definition nonLocalAddresses :: "error + SpaceAddress list \<Rightarrow> SpaceAddress list" where
  "nonLocalAddresses fetched =
     (case fetched of
        Inl err \<Rightarrow> []
      | Inr addrs \<Rightarrow> filter (\<lambda>addr. Scope addr \<noteq> ScopeMachineLocal) addrs)"

definition relationNetworks ::
  "(string \<Rightarrow> error + string) \<Rightarrow> NetworkInfoBase \<Rightarrow> string list \<Rightarrow> SpaceAddress list
     \<Rightarrow> error + string \<times> SpaceAddress list \<times> string list" where
  "relationNetworks toCIDR n egress polled =
     (let ingress0 = (if length polled = 0 then polled @ nonLocalAddresses (AllAddresses (unit n))
                      else polled);
          ingress = SortAddresses ingress0
      in if length egress = 0 \<and> length ingress > 0
         then (case FormatAsCIDR toCIDR [Value (hd ingress)] of
                 Inl err \<Rightarrow> Inl err
               | Inr egress' \<Rightarrow> Inr (AlphaSpaceId, ingress, egress'))
         else Inr (AlphaSpaceId, ingress, egress))"

definition NetworksForRelation ::
  "(string \<Rightarrow> error + string) \<Rightarrow> NetworkInfoBase \<Rightarrow> string \<Rightarrow> Relation \<Rightarrow> bool
     \<Rightarrow> (error + string \<times> SpaceAddress list \<times> string list) option" where
  "NetworksForRelation toCIDR n binding rel pollAddr =
     (case getRelationEgressSubnets n rel of
        Inl err \<Rightarrow> Some (Inl err)
      | Inr egress \<Rightarrow>
          if pollAddr
          then do {
            polled \<leftarrow> maybeGetUnitAddress n rel;
            case polled of
              Inl err \<Rightarrow> Some (Inl err)
            | Inr ingress \<Rightarrow> Some (relationNetworks toCIDR n egress ingress)
          }
          else Some (relationNetworks toCIDR n egress []))"

subsection \<open>The request processor for units without machines\<close>

text \<open>
  \<^verbatim>\<open>network.NetworkInfo\<close> and \<^verbatim>\<open>params.NetworkInfo\<close> have the same fields (as
  have the two \<^verbatim>\<open>InterfaceAddress\<close> types) and the conversion between them copies
  field by field, so one record stands for both. \<^verbatim>\<open>params.NetworkInfoResult\<close>,
  \<^verbatim>\<open>params.NetworkInfoParams\<close> and \<^verbatim>\<open>machineNetworkInfoResult\<close> follow.
\<close>

record NetworkInfo =
  MACAddress :: string
  InterfaceName :: string
  Addresses :: "InterfaceAddress list"

record NetworkInfoResult =
  Info :: "NetworkInfo list"
  EgressSubnets :: "string list"
  IngressAddresses :: "string list"
  Error :: "error option"

record NetworkInfoParams =
  Endpoints :: "string list"
  RelationId :: "int option"

record machineNetworkInfoResult =
  NetworkInfos :: "NetworkInfo list"

definition emptyInterfaceAddress :: InterfaceAddress where
  "emptyInterfaceAddress = \<lparr> Hostname = [], Address = [], CIDR = [] \<rparr>"

definition emptyNetworkInfo :: NetworkInfo where
  "emptyNetworkInfo = \<lparr> MACAddress = [], InterfaceName = [], Addresses = [] \<rparr>"

definition emptyNetworkInfoResult :: NetworkInfoResult where
  "emptyNetworkInfoResult =
     \<lparr> Info = [], EgressSubnets = [], IngressAddresses = [], Error = None \<rparr>"

text \<open>A Go map read: the zero value (the nil slice) when the key is absent.\<close>

definition lookupList :: "('k \<rightharpoonup> 'v list) \<Rightarrow> 'k \<Rightarrow> 'v list" where
  "lookupList m k = (case m k of None \<Rightarrow> [] | Some v \<Rightarrow> v)"

definition lookupNetworkInfos ::
  "(string \<rightharpoonup> machineNetworkInfoResult) \<Rightarrow> string \<Rightarrow> machineNetworkInfoResult" where
  "lookupNetworkInfos m k = (case m k of None \<Rightarrow> \<lparr> NetworkInfos = [] \<rparr> | Some v \<Rightarrow> v)"

text \<open>
  Modelled from the spec: \<^verbatim>\<open>machineNetworkInfoResultToNetworkInfoResult\<close> is not under
  src/. Spec 4.4, step 4: the device info of the result is built from the device-local
  addresses of the space; nothing else of the result is set.
\<close>

definition machineNetworkInfoResultToNetworkInfoResult ::
  "machineNetworkInfoResult \<Rightarrow> NetworkInfoResult" where
  "machineNetworkInfoResultToNetworkInfoResult inResult =
     emptyNetworkInfoResult \<lparr> Info := NetworkInfos inResult \<rparr>"

definition spaceAddressesFromNetworkInfo :: "NetworkInfo list \<Rightarrow> SpaceAddress list" where
  "spaceAddressesFromNetworkInfo netInfos =
     concat (map (\<lambda>nwInfo.
        let scope = (if prefix ''fan-'' (InterfaceName nwInfo) then ScopeFanLocal else ScopeUnknown)
        in map (\<lambda>addr. \<lparr> Value = Address addr, Scope = scope \<rparr>) (Addresses nwInfo)) netInfos)"

definition dedupResult :: "NetworkInfoResult \<Rightarrow> NetworkInfoResult" where
  "dedupResult res =
     (if Error res \<noteq> None then res
      else res \<lparr> IngressAddresses := dedupStringListPreservingOrder (IngressAddresses res),
                 EgressSubnets := dedupStringListPreservingOrder (EgressSubnets res),
                 Info := map (\<lambda>info. info \<lparr> Addresses := dedupAddrList (Addresses info) \<rparr>)
                           (Info res) \<rparr>)"

definition dedupNetworkInfoResults ::
  "(string \<rightharpoonup> NetworkInfoResult) \<Rightarrow> (string \<rightharpoonup> NetworkInfoResult)" where
  "dedupNetworkInfoResults results = (\<lambda>epName. map_option dedupResult (results epName))"

text \<open>
  The error of an endpoint without a binding. The message of the source is
  \<^verbatim>\<open>Sprintf("binding name %q not defined by the unit's charm", endpoint)\<close>; the model
  keeps the endpoint name, the argument of the format.
\<close>

definition bindingNotDefined :: "string \<Rightarrow> NetworkInfoResult" where
  "bindingNotDefined endpoint = emptyNetworkInfoResult \<lparr> Error := Some (NotValid endpoint) \<rparr>"

text \<open>
  The first loop of \<^verbatim>\<open>ProcessAPIRequest\<close>, one step per requested endpoint; the state
  is the local map \<^verbatim>\<open>bindings\<close>, the results and \<^verbatim>\<open>endpointEgressSubnets\<close>.
\<close>

type_synonym validation =
  "(string \<rightharpoonup> string) \<times> (string \<rightharpoonup> NetworkInfoResult) \<times> (string \<rightharpoonup> string list)"

definition validateEndpoint :: "NetworkInfoBase \<Rightarrow> string \<Rightarrow> validation \<Rightarrow> validation" where
  "validateEndpoint n endpoint s =
     (case s of (bs, results, endpointEgressSubnets) \<Rightarrow>
        (case bindings n endpoint of
           Some binding \<Rightarrow>
             (bs(endpoint \<mapsto> binding), results, endpointEgressSubnets(endpoint \<mapsto> defaultEgress n))
         | None \<Rightarrow>
             (bs, results(endpoint \<mapsto> bindingNotDefined endpoint),
              endpointEgressSubnets(endpoint \<mapsto> defaultEgress n))))"

definition validateEndpoints :: "NetworkInfoBase \<Rightarrow> string list \<Rightarrow> validation" where
  "validateEndpoints n endpoints =
     fold (validateEndpoint n) endpoints (Map.empty, Map.empty, Map.empty)"

text \<open>\<^verbatim>\<open>getRelationNetworkInfo\<close>.\<close>

definition getRelationNetworkInfo ::
  "(string \<Rightarrow> error + string) \<Rightarrow> NetworkInfoBase \<Rightarrow> int
     \<Rightarrow> (error + string \<times> string \<times> SpaceAddress list \<times> string list) option" where
  "getRelationNetworkInfo toCIDR n relationId =
     (case getRelationAndEndpointName n relationId of
        Inl err \<Rightarrow> Some (Inl err)
      | Inr (rel, endpoint) \<Rightarrow>
          (case ApplicationConfig (app n) of
             Inl err \<Rightarrow> Some (Inl err)
           | Inr cfg \<Rightarrow>
               (let svcType = (case cfg ServiceTypeConfigKey of None \<Rightarrow> [] | Some v \<Rightarrow> v);
                    pollAddr = (svcType = ServiceTypeLoadBalancer \<or> svcType = ServiceTypeExternalName)
                in do {
                  resolved \<leftarrow> NetworksForRelation toCIDR n endpoint rel pollAddr;
                  Some (case resolved of
                          Inl err \<Rightarrow> Inl err
                        | Inr (space, ingress, egress) \<Rightarrow> Inr (endpoint, space, ingress, egress))
                })))"

text \<open>
  The body of the last loop of \<^verbatim>\<open>ProcessAPIRequest\<close> for one bound endpoint and its
  space.
\<close>

definition endpointInfo ::
  "(string \<Rightarrow> error + string) \<Rightarrow> (string \<rightharpoonup> machineNetworkInfoResult)
     \<Rightarrow> (string \<rightharpoonup> string list) \<Rightarrow> (string \<rightharpoonup> SpaceAddress list) \<Rightarrow> string list
     \<Rightarrow> string \<Rightarrow> string \<Rightarrow> error + NetworkInfoResult" where
  "endpointInfo toCIDR networkInfos endpointEgressSubnets endpointIngressAddresses
       defaultIngressAddresses endpoint space =
     (let info0 = machineNetworkInfoResultToNetworkInfoResult (lookupNetworkInfos networkInfos space);
          egress = lookupList endpointEgressSubnets endpoint;
          ingressAddrs = map Value (lookupList endpointIngressAddresses endpoint);
          ingress1 = (if length ingressAddrs = 0 then defaultIngressAddresses else ingressAddrs);
          ingress2 = (if length ingress1 = 0
                      then map Value (SortAddresses (spaceAddressesFromNetworkInfo
                             (NetworkInfos (lookupNetworkInfos networkInfos space))))
                      else ingress1);
          info = info0 \<lparr> EgressSubnets := egress, IngressAddresses := ingress2 \<rparr>
      in if length egress = 0 \<and> length ingress2 > 0
         then (case FormatAsCIDR toCIDR [hd ingress2] of
                 Inl err \<Rightarrow> Inl err
               | Inr egress' \<Rightarrow> Inr (info \<lparr> EgressSubnets := egress' \<rparr>))
         else Inr info)"

text \<open>
  The last loop, over the entries of the local map \<^verbatim>\<open>bindings\<close>, given as the list
  of its keys; a name that is not a key of the map has no entry and is passed over. A failure
  returns at once; the source then hands back the results gathered so far beside the error,
  the model the error alone.
\<close>

fun assembleResults ::
  "(string \<Rightarrow> string \<Rightarrow> error + NetworkInfoResult) \<Rightarrow> (string \<rightharpoonup> string) \<Rightarrow> string list
     \<Rightarrow> (string \<rightharpoonup> NetworkInfoResult) \<Rightarrow> error + (string \<rightharpoonup> NetworkInfoResult)" where
  "assembleResults body bs [] results = Inr results"
| "assembleResults body bs (endpoint # keys) results =
     (case bs endpoint of
        None \<Rightarrow> assembleResults body bs keys results
      | Some space \<Rightarrow>
          (case body endpoint space of
             Inl err \<Rightarrow> Inl err
           | Inr info \<Rightarrow> assembleResults body bs keys (results(endpoint \<mapsto> info))))"

text \<open>
  Go leaves the order in which a map is ranged over open. The model ranges over the keys of
  the local map \<^verbatim>\<open>bindings\<close> in the order in which the request first names them.
\<close>

definition rangeKeys :: "NetworkInfoBase \<Rightarrow> string list \<Rightarrow> string list" where
  "rangeKeys n endpoints = rev (remdups (rev (filter (\<lambda>e. bindings n e \<noteq> None) endpoints)))"

text \<open>
  The second step of \<^verbatim>\<open>ProcessAPIRequest\<close>, once the relation has been resolved:
  \<open>relation\<close> is \<open>None\<close> without a relation id and otherwise the endpoint, ingress and
  egress that \<^verbatim>\<open>getRelationNetworkInfo\<close> returned. The egress of the relation
  replaces the entry of its endpoint when it is not empty; the ingress is recorded under the
  endpoint of the relation.
\<close>

definition relationEgressSubnets ::
  "(string \<rightharpoonup> string list) \<Rightarrow> (string \<times> SpaceAddress list \<times> string list) option
     \<Rightarrow> (string \<rightharpoonup> string list)" where
  "relationEgressSubnets endpointEgressSubnets relation =
     (case relation of
        None \<Rightarrow> endpointEgressSubnets
      | Some (endpoint, ingress, egress) \<Rightarrow>
          if length egress > 0 then endpointEgressSubnets(endpoint \<mapsto> egress)
          else endpointEgressSubnets)"

definition relationIngressAddresses ::
  "(string \<times> SpaceAddress list \<times> string list) option \<Rightarrow> (string \<rightharpoonup> SpaceAddress list)" where
  "relationIngressAddresses relation =
     (case relation of
        None \<Rightarrow> Map.empty
      | Some (endpoint, ingress, egress) \<Rightarrow> [endpoint \<mapsto> ingress])"

text \<open>
  The third step, on the sorted addresses of the unit: the machine-local addresses become
  the interface addresses of the one device of the alpha space, the values of the others the
  default ingress addresses.
\<close>

definition interfaceAddr :: "SpaceAddress list \<Rightarrow> InterfaceAddress list" where
  "interfaceAddr addrs =
     map (\<lambda>a. emptyInterfaceAddress \<lparr> Address := Value a \<rparr>)
       (filter (\<lambda>a. Scope a = ScopeMachineLocal) addrs)"

definition defaultIngressAddresses :: "SpaceAddress list \<Rightarrow> string list" where
  "defaultIngressAddresses addrs =
     map Value (filter (\<lambda>a. Scope a \<noteq> ScopeMachineLocal) addrs)"

definition alphaNetworkInfos :: "SpaceAddress list \<Rightarrow> (string \<rightharpoonup> machineNetworkInfoResult)" where
  "alphaNetworkInfos addrs =
     [AlphaSpaceId \<mapsto>
        \<lparr> NetworkInfos = [emptyNetworkInfo \<lparr> Addresses := interfaceAddr addrs \<rparr>] \<rparr>]"

text \<open>\<^verbatim>\<open>ProcessAPIRequest\<close> from the validation of the endpoints on.\<close>

definition processWithRelation ::
  "(string \<Rightarrow> error + string) \<Rightarrow> NetworkInfoBase \<Rightarrow> string list
     \<Rightarrow> (string \<times> SpaceAddress list \<times> string list) option
     \<Rightarrow> error + (string \<rightharpoonup> NetworkInfoResult)" where
  "processWithRelation toCIDR n endpoints relation =
     (case validateEndpoints n endpoints of (bs, results, endpointEgressSubnets) \<Rightarrow>
        (case AllAddresses (unit n) of
           Inl err \<Rightarrow> Inl err
         | Inr addrs \<Rightarrow>
             (case assembleResults
                     (endpointInfo toCIDR (alphaNetworkInfos (SortAddresses addrs))
                        (relationEgressSubnets endpointEgressSubnets relation)
                        (relationIngressAddresses relation)
                        (defaultIngressAddresses (SortAddresses addrs)))
                     bs (rangeKeys n endpoints) results of
                Inl err \<Rightarrow> Inl err
              | Inr assembled \<Rightarrow> Inr (dedupNetworkInfoResults assembled))))"

definition ProcessAPIRequest ::
  "(string \<Rightarrow> error + string) \<Rightarrow> NetworkInfoBase \<Rightarrow> NetworkInfoParams
     \<Rightarrow> (error + (string \<rightharpoonup> NetworkInfoResult)) option" where
  "ProcessAPIRequest toCIDR n args =
     (case RelationId args of
        None \<Rightarrow> Some (processWithRelation toCIDR n (Endpoints args) None)
      | Some relationId \<Rightarrow>
          do {
            resolved \<leftarrow> getRelationNetworkInfo toCIDR n relationId;
            Some (case resolved of
                    Inl err \<Rightarrow> Inl err
                  | Inr (endpoint, space, ingress, egress) \<Rightarrow>
                      processWithRelation toCIDR n (Endpoints args) (Some (endpoint, ingress, egress)))
          })"

subsection \<open>Scenarios\<close>

text \<open>A unit whose public address is never assigned; every invocation answers at once.\<close>

definition neverAssigned :: "SpaceAddress fetcher" where
  "neverAssigned = (\<lambda>i. (Inl (NoAddress ''no public address''), 0))"

text \<open>
  A store that has no address for the first two invocations and then fails for another
  reason.
\<close>

definition failsOnThird :: "SpaceAddress fetcher" where
  "failsOnThird =
     (\<lambda>i. if i < 2 then (Inl (NoAddress ''no public address''), 0)
          else (Inl (Fatal ''connection is shut down''), 0))"

text \<open>
  A formatter for single addresses that rejects the empty string and otherwise appends the
  IPv4 host suffix.
\<close>

definition hostCIDR :: "string \<Rightarrow> error + string" where
  "hostCIDR a = (if a = [] then Inl (NotValid ''invalid address'') else Inr (a @ ''/32''))"

text \<open>
  The unit mysql/0, with a public, an overlay and a machine-local address, whose application
  binds the endpoints server and cluster to the alpha space. Relation 0 has an egress override,
  relation 1 has none, relation 2 is cross-model and has none. The model default egress is
  0.0.0.0/0.
\<close>

definition mysqlAddresses :: "SpaceAddress list" where
  "mysqlAddresses =
     [\<lparr> Value = ''127.0.0.1'', Scope = ScopeMachineLocal \<rparr>,
      \<lparr> Value = ''252.0.16.1'', Scope = ScopeFanLocal \<rparr>,
      \<lparr> Value = ''54.32.1.2'', Scope = ScopePublic \<rparr>]"

definition privateAfterTwoRetries :: "SpaceAddress fetcher" where
  "privateAfterTwoRetries =
     (\<lambda>i. if i < 2 then (Inl (NoAddress ''no private address''), 0)
          else (Inr \<lparr> Value = ''10.1.2.3'', Scope = ScopeFanLocal \<rparr>, 0))"

definition mysqlUnit :: Unit where
  "mysqlUnit =
     \<lparr> ApplicationName = ''mysql'',
       PublicAddress = neverAssigned,
       PrivateAddress = privateAfterTwoRetries,
       AllAddresses = Inr mysqlAddresses \<rparr>"

definition serverRelation :: "string \<Rightarrow> bool \<Rightarrow> Relation" where
  "serverRelation tag crossModel =
     \<lparr> RelationTagId = tag,
       Endpoint = (\<lambda>appName. if appName = ''mysql'' then Inr ''server''
                     else Inl (Fatal ''application is not a member of the relation'')),
       RemoteApplication = Inr crossModel \<rparr>"

definition mysqlState :: State where
  "mysqlState =
     \<lparr> RelationById =
         (\<lambda>relId. if relId = 0 then Inr (serverRelation ''wordpress:db mysql:server'' False)
                 else if relId = 1 then Inr (serverRelation ''mediawiki:db mysql:server'' False)
                 else if relId = 2 then Inr (serverRelation ''remote-wiki:db mysql:server'' True)
                 else Inl (NotFound ''relation not found'')),
       RelationEgressNetworks =
         (\<lambda>key. if key = ''wordpress:db mysql:server'' then Inr [''10.0.0.0/24'']
               else Inl (NotFound ''egress networks not found'')) \<rparr>"

definition mysqlBase :: NetworkInfoBase where
  "mysqlBase =
     \<lparr> st = mysqlState,
       retryFactory = defaultRetryFactory,
       unit = mysqlUnit,
       app = \<lparr> ApplicationConfig = Inr [ServiceTypeConfigKey \<mapsto> ''LoadBalancer''] \<rparr>,
       defaultEgress = [''0.0.0.0/0''],
       bindings = [''server'' \<mapsto> ''0'', ''cluster'' \<mapsto> ''0''] \<rparr>"

subsection \<open>Descriptions used in the proofs\<close>

text \<open>
  What the last loop of \<^verbatim>\<open>ProcessAPIRequest\<close> leaves in the results when no
  endpoint fails: the info of every key of the local bindings, and the earlier entry
  elsewhere.
\<close>

definition assembled ::
  "(string \<Rightarrow> string \<Rightarrow> error + NetworkInfoResult) \<Rightarrow> (string \<rightharpoonup> string) \<Rightarrow> string list
     \<Rightarrow> (string \<rightharpoonup> NetworkInfoResult) \<Rightarrow> (string \<rightharpoonup> NetworkInfoResult)" where
  "assembled body bs keys results =
     (\<lambda>e. case (if e \<in> set keys then bs e else None) of
             None \<Rightarrow> results e
           | Some space \<Rightarrow> (case body e space of Inl err \<Rightarrow> results e | Inr info \<Rightarrow> Some info))"

text \<open>
  The relation data that \<^verbatim>\<open>ProcessAPIRequest\<close> works with: none without a relation
  id, otherwise the endpoint, ingress and egress from \<^verbatim>\<open>getRelationNetworkInfo\<close>.
\<close>

definition resolvedRelation ::
  "(string \<Rightarrow> error + string) \<Rightarrow> NetworkInfoBase \<Rightarrow> NetworkInfoParams
     \<Rightarrow> (string \<times> SpaceAddress list \<times> string list) option" where
  "resolvedRelation toCIDR n args =
     (case RelationId args of
        None \<Rightarrow> None
      | Some relationId \<Rightarrow>
          (case getRelationNetworkInfo toCIDR n relationId of
             Some (Inr (endpoint, space, ingress, egress)) \<Rightarrow> Some (endpoint, ingress, egress)
           | _ \<Rightarrow> None))"

text \<open>
  The entry of \<^verbatim>\<open>endpointEgressSubnets\<close> for a requested endpoint when the last loop
  of \<^verbatim>\<open>ProcessAPIRequest\<close> starts: the egress of the relation for the endpoint of the
  relation, if there is any, and the default egress otherwise.
\<close>

definition endpointEgress ::
  "NetworkInfoBase \<Rightarrow> (string \<times> SpaceAddress list \<times> string list) option \<Rightarrow> string \<Rightarrow> string list" where
  "endpointEgress n relation endpoint =
     (case relation of
        None \<Rightarrow> defaultEgress n
      | Some (relEndpoint, ingress, egress) \<Rightarrow>
          if relEndpoint = endpoint \<and> egress \<noteq> [] then egress else defaultEgress n)"

text \<open>The unit mysql/0 in a model without default egress subnets.\<close>

definition mysqlNoEgress :: NetworkInfoBase where
  "mysqlNoEgress = mysqlBase \<lparr> defaultEgress := [] \<rparr>"

text \<open>
  The body of the last loop of \<^verbatim>\<open>ProcessAPIRequest\<close> for a requested endpoint, in
  terms of the unit, the relation data and the addresses of the unit only, and the results of
  a request that meets no fatal condition.
\<close>

definition requestInfo ::
  "(string \<Rightarrow> error + string) \<Rightarrow> NetworkInfoBase \<Rightarrow> (string \<times> SpaceAddress list \<times> string list) option
     \<Rightarrow> SpaceAddress list \<Rightarrow> string \<Rightarrow> string \<Rightarrow> error + NetworkInfoResult" where
  "requestInfo toCIDR n relation addrs endpoint space =
     endpointInfo toCIDR (alphaNetworkInfos (SortAddresses addrs))
       (\<lambda>e. Some (endpointEgress n relation e)) (relationIngressAddresses relation)
       (defaultIngressAddresses (SortAddresses addrs)) endpoint space"

definition requestResults ::
  "(string \<Rightarrow> error + string) \<Rightarrow> NetworkInfoBase \<Rightarrow> (string \<times> SpaceAddress list \<times> string list) option
     \<Rightarrow> SpaceAddress list \<Rightarrow> string list \<Rightarrow> (string \<rightharpoonup> NetworkInfoResult)" where
  "requestResults toCIDR n relation addrs endpoints =
     (\<lambda>e. if e \<in> set endpoints
          then (case bindings n e of
                  None \<Rightarrow> Some (bindingNotDefined e)
                | Some space \<Rightarrow>
                    (case requestInfo toCIDR n relation addrs e space of
                       Inl err \<Rightarrow> None
                     | Inr info \<Rightarrow> Some (dedupResult info)))
          else None)"

text \<open>
  Variants of the unit mysql/0: one whose public address is recorded with an empty value and
  whose private address is never assigned; one whose addresses cannot be read; a store whose
  egress networks cannot be read; and a cross-model relation whose remote application cannot
  be found.
\<close>

definition emptyPublic :: "SpaceAddress fetcher" where
  "emptyPublic = (\<lambda>i. (Inr \<lparr> Value = [], Scope = ScopeUnknown \<rparr>, 0))"

definition emptyPublicBase :: NetworkInfoBase where
  "emptyPublicBase =
     mysqlBase \<lparr> unit := mysqlUnit \<lparr> PublicAddress := emptyPublic, PrivateAddress := neverAssigned \<rparr> \<rparr>"

definition brokenAddressesBase :: NetworkInfoBase where
  "brokenAddressesBase =
     mysqlBase \<lparr> unit := mysqlUnit \<lparr> AllAddresses := Inl (Fatal ''connection is shut down'') \<rparr> \<rparr>"

definition brokenEgressBase :: NetworkInfoBase where
  "brokenEgressBase =
     mysqlBase \<lparr> st := mysqlState
       \<lparr> RelationEgressNetworks := (\<lambda>key. Inl (Fatal ''connection is shut down'')) \<rparr> \<rparr>"

definition lostRemoteRelation :: Relation where
  "lostRemoteRelation =
     (serverRelation ''remote-wiki:db mysql:server'' True)
       \<lparr> RemoteApplication := Inl (NotFound ''remote application not found'') \<rparr>"

subsection \<open>Facts about deduplication\<close>

lemma dedupStringLoop_keepUnseen:
  "dedupStringLoop seen out values = out @ keepUnseen (\<lambda>v. v) seen values"
  by (induction "values" arbitrary: seen out) auto

lemma dedupAddrLoop_keepUnseen:
  "dedupAddrLoop seen out addrList = out @ keepUnseen Address seen addrList"
  by (induction addrList arbitrary: seen out) auto

lemma dedupString_keepUnseen:
  "dedupStringListPreservingOrder values = keepUnseen (\<lambda>v. v) {} values"
  by (simp add: dedupStringListPreservingOrder_def dedupStringLoop_keepUnseen)

lemma dedupAddr_keepUnseen: "dedupAddrList addrList = keepUnseen Address {} addrList"
proof (cases addrList)
  case Nil
  then show ?thesis by (simp add: dedupAddrList_def)
next
  case (Cons a as)
  then show ?thesis
    by (cases as) (simp_all add: dedupAddrList_def dedupAddrLoop_keepUnseen)
qed

lemma keepUnseen_filter_index:
  "keepUnseen key seen xs =
     map (\<lambda>i. xs ! i)
       (filter (\<lambda>i. key (xs ! i) \<notin> seen \<union> key ` set (take i xs)) [0..<length xs])"
proof (induction xs arbitrary: seen)
  case Nil
  then show ?case by simp
next
  case (Cons x xs)
  have shift: "[0..<length (x # xs)] = 0 # map Suc [0..<length xs]"
    by (simp add: upt_conv_Cons map_Suc_upt del: upt_Suc)
  have absorb: "key x \<in> seen \<Longrightarrow> insert (key x) seen = seen"
    by (rule insert_absorb)
  have step: "keepUnseen key seen (x # xs) =
      (if key x \<in> seen then [] else [x]) @ keepUnseen key (insert (key x) seen) xs"
    by (simp add: absorb)
  show ?case
    unfolding shift step
    by (simp add: Cons.IH [of "insert (key x) seen"] filter_map comp_def conj_ac del: upt_Suc keepUnseen.simps)
qed

lemma keepUnseen_firstOccurrences: "keepUnseen key {} xs = firstOccurrences key xs"
  by (simp add: keepUnseen_filter_index firstOccurrences_def)

lemma keepUnseen_subseq: "subseq (keepUnseen key seen xs) xs"
  by (induction xs arbitrary: seen) auto

lemma keepUnseen_keys: "key ` set (keepUnseen key seen xs) = key ` set xs - seen"
  by (induction xs arbitrary: seen) auto

lemma keepUnseen_distinct: "distinct (map key (keepUnseen key seen xs))"
proof (induction xs arbitrary: seen)
  case Nil
  then show ?case by simp
next
  case (Cons x xs)
  have "key x \<notin> key ` set (keepUnseen key (insert (key x) seen) xs)"
    by (simp add: keepUnseen_keys)
  with Cons.IH show ?case by simp
qed

lemma keepUnseen_fixed:
  "distinct (map key xs) \<Longrightarrow> seen \<inter> key ` set xs = {} \<Longrightarrow> keepUnseen key seen xs = xs"
  by (induction xs arbitrary: seen) auto

lemma keepUnseen_idem: "keepUnseen key {} (keepUnseen key {} xs) = keepUnseen key {} xs"
  by (rule keepUnseen_fixed) (simp_all add: keepUnseen_distinct)

lemma keepUnseen_hd: "xs \<noteq> [] \<Longrightarrow> keepUnseen key {} xs \<noteq> [] \<and> hd (keepUnseen key {} xs) = hd xs"
  by (cases xs) simp_all

lemma keepUnseen_Nil_iff: "keepUnseen key {} xs = [] \<longleftrightarrow> xs = []"
  by (cases xs) simp_all

subsection \<open>Facts about the retry loop\<close>

lemma retryLoop_returns:
  assumes D: "0 < Delay args"
  shows "\<exists>i' t'. retryLoop args isF func i t = Some (fst (func i'), i', t')
      \<and> i \<le> i'
      \<and> (\<forall>j. i \<le> j \<and> j < i' \<longrightarrow> (\<exists>e. fst (func j) = Inl e \<and> \<not> isF e))
      \<and> t' = t + (\<Sum>j = i..i'. snd (func j)) + (i' - i) * Delay args
      \<and> (t \<le> MaxDuration args \<longrightarrow> t' \<le> MaxDuration args + snd (func i'))
      \<and> (case fst (func i') of Inr a \<Rightarrow> True
          | Inl e \<Rightarrow> isF e \<or> MaxDuration args < t' + Delay args)"
proof (induction "MaxDuration args - t" arbitrary: i t rule: less_induct)
  case less
  show ?case
  proof (cases "fst (func i)")
    case (Inr a)
    then show ?thesis
      by (subst retryLoop.simps) (auto intro!: exI [of _ i])
  next
    case (Inl err)
    show ?thesis
    proof (cases "isF err \<or> MaxDuration args < t + snd (func i) + Delay args")
      case True
      with Inl show ?thesis
        by (subst retryLoop.simps) (auto intro!: exI [of _ i])
    next
      case False
      let ?t = "t + snd (func i) + Delay args"
      from False D have "MaxDuration args - ?t < MaxDuration args - t" by arith
      from less [OF this, of "Suc i"]
      obtain i' t' where
        r: "retryLoop args isF func (Suc i) ?t = Some (fst (func i'), i', t')"
        and le: "Suc i \<le> i'"
        and mid: "\<forall>j. Suc i \<le> j \<and> j < i' \<longrightarrow> (\<exists>e. fst (func j) = Inl e \<and> \<not> isF e)"
        and tm: "t' = ?t + (\<Sum>j = Suc i..i'. snd (func j)) + (i' - Suc i) * Delay args"
        and bd: "?t \<le> MaxDuration args \<longrightarrow> t' \<le> MaxDuration args + snd (func i')"
        and cl: "case fst (func i') of Inr a \<Rightarrow> True
          | Inl e \<Rightarrow> isF e \<or> MaxDuration args < t' + Delay args"
        by blast
      have step: "retryLoop args isF func i t = retryLoop args isF func (Suc i) ?t"
        using Inl False by (subst retryLoop.simps) simp
      have mid': "\<forall>j. i \<le> j \<and> j < i' \<longrightarrow> (\<exists>e. fst (func j) = Inl e \<and> \<not> isF e)"
      proof (intro allI impI)
        fix j assume j: "i \<le> j \<and> j < i'"
        show "\<exists>e. fst (func j) = Inl e \<and> \<not> isF e"
        proof (cases "j = i")
          case True
          with Inl False show ?thesis by simp
        next
          case False
          with j mid show ?thesis by simp
        qed
      qed
      have sum: "(\<Sum>j = i..i'. snd (func j)) = snd (func i) + (\<Sum>j = Suc i..i'. snd (func j))"
        using le by (simp add: sum.atLeast_Suc_atMost)
      have "i' - i = Suc (i' - Suc i)"
        using le by arith
      then have mul: "(i' - i) * Delay args = Delay args + (i' - Suc i) * Delay args"
        by simp
      have tm': "t' = t + (\<Sum>j = i..i'. snd (func j)) + (i' - i) * Delay args"
        using tm sum mul by simp
      have bd': "t' \<le> MaxDuration args + snd (func i')"
        using bd False by simp
      show ?thesis
        using step r le mid' tm' bd' cl by auto
    qed
  qed
qed

text \<open>
  Claim C3. For every input list, \<^verbatim>\<open>dedupStringListPreservingOrder\<close> and
  \<^verbatim>\<open>dedupAddrList\<close> (keyed on the address value) are idempotent, their output is a
  subsequence of the input that keeps exactly the first occurrence of each key (the
  element at index \<open>i\<close> survives iff no earlier element has its key), and the output has
  no two elements with the same key.
\<close>

theorem dedup_idempotent_first_occurrence:
  "dedupStringListPreservingOrder (dedupStringListPreservingOrder values)
     = dedupStringListPreservingOrder values
   \<and> subseq (dedupStringListPreservingOrder values) values
   \<and> dedupStringListPreservingOrder values = firstOccurrences (\<lambda>v. v) values
   \<and> distinct (dedupStringListPreservingOrder values)
   \<and> set (dedupStringListPreservingOrder values) = set values
   \<and> dedupAddrList (dedupAddrList addrList) = dedupAddrList addrList
   \<and> subseq (dedupAddrList addrList) addrList
   \<and> dedupAddrList addrList = firstOccurrences Address addrList
   \<and> distinct (map Address (dedupAddrList addrList))
   \<and> Address ` set (dedupAddrList addrList) = Address ` set addrList"
proof -
  have s1: "dedupStringListPreservingOrder (dedupStringListPreservingOrder values)
      = dedupStringListPreservingOrder values"
    by (simp add: dedupString_keepUnseen keepUnseen_idem)
  have s2: "subseq (dedupStringListPreservingOrder values) values"
    by (simp add: dedupString_keepUnseen keepUnseen_subseq)
  have s3: "dedupStringListPreservingOrder values = firstOccurrences (\<lambda>v. v) values"
    by (simp add: dedupString_keepUnseen keepUnseen_firstOccurrences)
  have s4: "distinct (dedupStringListPreservingOrder values)"
    using keepUnseen_distinct [of "\<lambda>v. v" "{}" "values"]
    by (simp add: dedupString_keepUnseen)
  have s5: "set (dedupStringListPreservingOrder values) = set values"
    using keepUnseen_keys [of "\<lambda>v. v" "{}" "values"]
    by (simp add: dedupString_keepUnseen)
  have a1: "dedupAddrList (dedupAddrList addrList) = dedupAddrList addrList"
    by (simp add: dedupAddr_keepUnseen keepUnseen_idem)
  have a2: "subseq (dedupAddrList addrList) addrList"
    by (simp add: dedupAddr_keepUnseen keepUnseen_subseq)
  have a3: "dedupAddrList addrList = firstOccurrences Address addrList"
    by (simp add: dedupAddr_keepUnseen keepUnseen_firstOccurrences)
  have a4: "distinct (map Address (dedupAddrList addrList))"
    by (simp add: dedupAddr_keepUnseen keepUnseen_distinct)
  have a5: "Address ` set (dedupAddrList addrList) = Address ` set addrList"
    using keepUnseen_keys [of Address "{}" addrList]
    by (simp add: dedupAddr_keepUnseen)
  from s1 s2 s3 s4 s5 a1 a2 a3 a4 a5 show ?thesis by blast
qed

lemma retryLoop_skip:
  assumes retry: "\<forall>j. k \<le> j \<and> j < i \<longrightarrow> (\<exists>e. fst (func j) = Inl e \<and> \<not> isF e)"
    and ki: "k \<le> i"
    and budget: "t + (\<Sum>j = k..<i. snd (func j)) + (i - k) * Delay args \<le> MaxDuration args"
  shows "retryLoop args isF func k t =
         retryLoop args isF func i (t + (\<Sum>j = k..<i. snd (func j)) + (i - k) * Delay args)"
  using assms
proof (induction i)
  case 0
  then show ?case by simp
next
  case (Suc i)
  show ?case
  proof (cases "k = Suc i")
    case True
    then show ?thesis by simp
  next
    case False
    with Suc.prems have ki: "k \<le> i" by simp
    let ?t = "t + (\<Sum>j = k..<i. snd (func j)) + (i - k) * Delay args"
    have d: "Suc i - k = Suc (i - k)" using ki by arith
    have s: "(\<Sum>j = k..<Suc i. snd (func j)) = (\<Sum>j = k..<i. snd (func j)) + snd (func i)"
      using ki by simp
    have tsuc: "t + (\<Sum>j = k..<Suc i. snd (func j)) + (Suc i - k) * Delay args
        = ?t + snd (func i) + Delay args"
      unfolding d s by simp
    have b: "?t + snd (func i) + Delay args \<le> MaxDuration args"
      using Suc.prems(3) tsuc by simp
    then have b': "?t \<le> MaxDuration args" by arith
    have r: "\<forall>j. k \<le> j \<and> j < i \<longrightarrow> (\<exists>e. fst (func j) = Inl e \<and> \<not> isF e)"
      using Suc.prems(1) by auto
    have ih: "retryLoop args isF func k t = retryLoop args isF func i ?t"
      by (rule Suc.IH [OF r ki b'])
    from Suc.prems(1) ki obtain e where e: "fst (func i) = Inl e" "\<not> isF e"
      by auto
    have step: "retryLoop args isF func i ?t
        = retryLoop args isF func (Suc i) (?t + snd (func i) + Delay args)"
      using e b by (subst retryLoop.simps) simp
    show ?thesis
      unfolding tsuc using ih step by simp
  qed
qed

lemma retryLoop_stop:
  "fst (func i) = Inl err \<Longrightarrow> isF err \<Longrightarrow>
   retryLoop args isF func i t = Some (Inl err, i, t + snd (func i))"
  by (subst retryLoop.simps) simp

text \<open>
  Claim C1. When every invocation of the fetch function fails with the retryable
  no-address condition and the delay of the retry policy is positive (3 by default, with a
  maximum duration of 30), \<^verbatim>\<open>pollForAddress\<close> returns, and what it returns is the
  no-address error of the last invocation. The time spent waiting between attempts is at most
  the maximum duration, the last invocation starts within it, so the call returns within the
  maximum duration plus the time of that one invocation (spec 8), and within the maximum
  duration itself on a clock on which the invocations take no time.
\<close>

theorem pollForAddress_times_out:
  assumes delay: "0 < Delay retryArg"
    and never: "\<forall>i. \<exists>msg. fst (fetcher i) = Inl (NoAddress msg)"
  shows "\<exists>i t msg.
      retryCall retryArg pollIsFatalError fetcher = Some (Inl (NoAddress msg), i, t)
    \<and> pollForAddress retryArg fetcher = Some (Inl (NoAddress msg))
    \<and> fst (fetcher i) = Inl (NoAddress msg)
    \<and> t = (\<Sum>j = 0..i. snd (fetcher j)) + i * Delay retryArg
    \<and> i * Delay retryArg \<le> MaxDuration retryArg
    \<and> t \<le> MaxDuration retryArg + snd (fetcher i)
    \<and> ((\<forall>j. snd (fetcher j) = 0) \<longrightarrow> t \<le> MaxDuration retryArg)"
proof -
  from retryLoop_returns [OF delay, of pollIsFatalError fetcher 0 0]
  obtain i t where
    r: "retryLoop retryArg pollIsFatalError fetcher 0 0 = Some (fst (fetcher i), i, t)"
    and tm: "t = 0 + (\<Sum>j = 0..i. snd (fetcher j)) + (i - 0) * Delay retryArg"
    and bd: "0 \<le> MaxDuration retryArg \<longrightarrow> t \<le> MaxDuration retryArg + snd (fetcher i)"
    by blast
  from never obtain msg where msg: "fst (fetcher i) = Inl (NoAddress msg)" by blast
  have call: "retryCall retryArg pollIsFatalError fetcher = Some (Inl (NoAddress msg), i, t)"
    using r msg by (simp add: retryCall_def)
  have poll: "pollForAddress retryArg fetcher = Some (Inl (NoAddress msg))"
    using call by (simp add: pollForAddress_def)
  have tm': "t = (\<Sum>j = 0..i. snd (fetcher j)) + i * Delay retryArg"
    using tm by simp
  have bd': "t \<le> MaxDuration retryArg + snd (fetcher i)"
    using bd by simp
  have "snd (fetcher i) \<le> (\<Sum>j = 0..i. snd (fetcher j))"
    by (rule member_le_sum) simp_all
  with tm' bd' have slept: "i * Delay retryArg \<le> MaxDuration retryArg"
    by arith
  have inst: "(\<forall>j. snd (fetcher j) = 0) \<longrightarrow> t \<le> MaxDuration retryArg"
    using bd' by auto
  from call poll msg tm' slept bd' inst show ?thesis by blast
qed

theorem pollForAddress_times_out_witness:
  "0 < Delay defaultRetryFactory
   \<and> (\<forall>i. \<exists>msg. fst (neverAssigned i) = Inl (NoAddress msg))
   \<and> (\<exists>i t msg.
      retryCall defaultRetryFactory pollIsFatalError neverAssigned = Some (Inl (NoAddress msg), i, t)
    \<and> pollForAddress defaultRetryFactory neverAssigned = Some (Inl (NoAddress msg))
    \<and> fst (neverAssigned i) = Inl (NoAddress msg)
    \<and> t = (\<Sum>j = 0..i. snd (neverAssigned j)) + i * Delay defaultRetryFactory
    \<and> i * Delay defaultRetryFactory \<le> MaxDuration defaultRetryFactory
    \<and> t \<le> MaxDuration defaultRetryFactory + snd (neverAssigned i)
    \<and> ((\<forall>j. snd (neverAssigned j) = 0) \<longrightarrow> t \<le> MaxDuration defaultRetryFactory))"
proof -
  have d: "0 < Delay defaultRetryFactory" by (simp add: defaultRetryFactory_def)
  have nv: "\<forall>i. \<exists>msg. fst (neverAssigned i) = Inl (NoAddress msg)"
    by (simp add: neverAssigned_def)
  from pollForAddress_times_out [OF d nv] d nv show ?thesis
    by blast
qed

text \<open>
  Claim C2. In \<^verbatim>\<open>pollForAddress\<close> an error of the fetch function is fatal for the
  loop iff it is not a no-address error. When the invocations before the \<open>i\<close>-th fail
  with no-address errors (and the budget lets the loop get that far), these are retried, and
  an error of the \<open>i\<close>-th invocation that is not a no-address error ends the loop there,
  with no further wait or invocation, and is what \<^verbatim>\<open>pollForAddress\<close> returns.
\<close>

theorem pollForAddress_fatal_error_aborts:
  assumes failed: "fst (fetcher i) = Inl err"
    and other: "\<not> IsNoAddressError err"
    and before: "\<forall>j<i. \<exists>msg. fst (fetcher j) = Inl (NoAddress msg)"
    and budget: "(\<Sum>j = 0..<i. snd (fetcher j)) + i * Delay retryArg \<le> MaxDuration retryArg"
  shows "(\<forall>e. pollIsFatalError e \<longleftrightarrow> \<not> IsNoAddressError e)
    \<and> retryCall retryArg pollIsFatalError fetcher
        = Some (Inl err, i, (\<Sum>j = 0..i. snd (fetcher j)) + i * Delay retryArg)
    \<and> pollForAddress retryArg fetcher = Some (Inl err)"
proof -
  have cls: "\<forall>e. pollIsFatalError e \<longleftrightarrow> \<not> IsNoAddressError e"
    by (simp add: pollIsFatalError_def)
  have retried: "\<forall>j. 0 \<le> j \<and> j < i \<longrightarrow> (\<exists>e. fst (fetcher j) = Inl e \<and> \<not> pollIsFatalError e)"
  proof (intro allI impI)
    fix j assume "0 \<le> j \<and> j < i"
    with before obtain msg where "fst (fetcher j) = Inl (NoAddress msg)" by blast
    then show "\<exists>e. fst (fetcher j) = Inl e \<and> \<not> pollIsFatalError e"
      by (simp add: pollIsFatalError_def)
  qed
  have b: "0 + (\<Sum>j = 0..<i. snd (fetcher j)) + (i - 0) * Delay retryArg \<le> MaxDuration retryArg"
    using budget by simp
  have skip: "retryLoop retryArg pollIsFatalError fetcher 0 0 =
      retryLoop retryArg pollIsFatalError fetcher i
        ((\<Sum>j = 0..<i. snd (fetcher j)) + i * Delay retryArg)"
    using retryLoop_skip [OF retried _ b] by simp
  have fatal: "pollIsFatalError err"
    using other by (simp add: pollIsFatalError_def)
  have s: "(\<Sum>j = 0..i. snd (fetcher j)) = (\<Sum>j = 0..<i. snd (fetcher j)) + snd (fetcher i)"
    by (simp add: atLeastLessThanSuc_atLeastAtMost [symmetric])
  have call: "retryCall retryArg pollIsFatalError fetcher
        = Some (Inl err, i, (\<Sum>j = 0..i. snd (fetcher j)) + i * Delay retryArg)"
    unfolding retryCall_def skip s
    using retryLoop_stop [of fetcher i err pollIsFatalError retryArg] failed fatal
    by (simp add: add.assoc add.left_commute)
  have poll: "pollForAddress retryArg fetcher = Some (Inl err)"
    by (simp add: pollForAddress_def call)
  from cls call poll show ?thesis by blast
qed

theorem pollForAddress_fatal_error_aborts_witness:
  "pollForAddress defaultRetryFactory failsOnThird = Some (Inl (Fatal ''connection is shut down''))
   \<and> retryCall defaultRetryFactory pollIsFatalError failsOnThird
        = Some (Inl (Fatal ''connection is shut down''), 2, 6)"
proof -
  have failed: "fst (failsOnThird 2) = Inl (Fatal ''connection is shut down'')"
    by (simp add: failsOnThird_def)
  have other: "\<not> IsNoAddressError (Fatal ''connection is shut down'')"
    by simp
  have before: "\<forall>j<2. \<exists>msg. fst (failsOnThird j) = Inl (NoAddress msg)"
    by (simp add: failsOnThird_def)
  have budget: "(\<Sum>j = 0..<2. snd (failsOnThird j)) + 2 * Delay defaultRetryFactory
      \<le> MaxDuration defaultRetryFactory"
    by (simp add: failsOnThird_def defaultRetryFactory_def)
  have "(\<Sum>j = 0..2. snd (failsOnThird j)) + 2 * Delay defaultRetryFactory = 6"
    by (simp add: failsOnThird_def defaultRetryFactory_def)
  with pollForAddress_fatal_error_aborts [OF failed other before budget]
  show ?thesis by simp
qed

subsection \<open>Facts about the relation resolver\<close>

lemma relationNetworks_egress_kept:
  "egress \<noteq> [] \<Longrightarrow> relationNetworks toCIDR n egress polled = Inr (space, ingress, egress')
     \<Longrightarrow> egress' = egress"
  by (simp add: relationNetworks_def Let_def)

lemma NetworksForRelation_Inr:
  assumes "NetworksForRelation toCIDR n binding rel pollAddr = Some (Inr res)"
  shows "\<exists>egress polled. getRelationEgressSubnets n rel = Inr egress
     \<and> (if pollAddr then maybeGetUnitAddress n rel = Some (Inr polled) else polled = [])
     \<and> relationNetworks toCIDR n egress polled = Inr res"
  using assms
  by (auto simp: NetworksForRelation_def split: sum.splits if_splits bind_splits)

text \<open>
  Claim C4. For every relation, \<^verbatim>\<open>getRelationEgressSubnets\<close> yields the per-relation
  egress override when the lookup of the override succeeds, and the model default egress
  captured at construction when the lookup fails with a not-found error; a non-empty egress
  obtained this way is the egress that \<^verbatim>\<open>NetworksForRelation\<close> returns. With override
  10.0.0.0/24 and default 0.0.0.0/0 the resolved egress is exactly the override.
\<close>

theorem relation_egress_override_or_default:
  "(RelationEgressNetworks (st n) (RelationTagId rel) = Inr cidrs \<longrightarrow>
      getRelationEgressSubnets n rel = Inr cidrs
      \<and> (cidrs \<noteq> [] \<and> NetworksForRelation toCIDR n binding rel pollAddr
            = Some (Inr (space, ingress, egress)) \<longrightarrow> egress = cidrs))
   \<and> (RelationEgressNetworks (st n) (RelationTagId rel) = Inl err \<and> IsNotFound err \<longrightarrow>
      getRelationEgressSubnets n rel = Inr (defaultEgress n)
      \<and> (defaultEgress n \<noteq> [] \<and> NetworksForRelation toCIDR n binding rel pollAddr
            = Some (Inr (space, ingress, egress)) \<longrightarrow> egress = defaultEgress n))"
proof (intro conjI impI)
  assume "RelationEgressNetworks (st n) (RelationTagId rel) = Inr cidrs"
  then show g: "getRelationEgressSubnets n rel = Inr cidrs"
    by (simp add: getRelationEgressSubnets_def)
  assume "cidrs \<noteq> [] \<and> NetworksForRelation toCIDR n binding rel pollAddr
            = Some (Inr (space, ingress, egress))"
  with g show "egress = cidrs"
    by (auto dest!: NetworksForRelation_Inr dest: relationNetworks_egress_kept)
next
  assume "RelationEgressNetworks (st n) (RelationTagId rel) = Inl err \<and> IsNotFound err"
  then show g: "getRelationEgressSubnets n rel = Inr (defaultEgress n)"
    by (simp add: getRelationEgressSubnets_def)
  assume "defaultEgress n \<noteq> [] \<and> NetworksForRelation toCIDR n binding rel pollAddr
            = Some (Inr (space, ingress, egress))"
  with g show "egress = defaultEgress n"
    by (auto dest!: NetworksForRelation_Inr dest: relationNetworks_egress_kept)
qed

lemma mysql_resolve_0:
  "NetworksForRelation hostCIDR mysqlBase ''server''
       (serverRelation ''wordpress:db mysql:server'' False) False
     = Some (Inr (AlphaSpaceId,
         [\<lparr> Value = ''54.32.1.2'', Scope = ScopePublic \<rparr>,
          \<lparr> Value = ''252.0.16.1'', Scope = ScopeFanLocal \<rparr>], [''10.0.0.0/24'']))"
  by (simp add: NetworksForRelation_def getRelationEgressSubnets_def mysqlBase_def mysqlState_def
      serverRelation_def relationNetworks_def nonLocalAddresses_def mysqlUnit_def
      mysqlAddresses_def SortAddresses_def)

lemma mysql_resolve_1:
  "NetworksForRelation hostCIDR mysqlBase ''server''
       (serverRelation ''mediawiki:db mysql:server'' False) False
     = Some (Inr (AlphaSpaceId,
         [\<lparr> Value = ''54.32.1.2'', Scope = ScopePublic \<rparr>,
          \<lparr> Value = ''252.0.16.1'', Scope = ScopeFanLocal \<rparr>], [''0.0.0.0/0'']))"
  by (simp add: NetworksForRelation_def getRelationEgressSubnets_def mysqlBase_def mysqlState_def
      serverRelation_def relationNetworks_def nonLocalAddresses_def mysqlUnit_def
      mysqlAddresses_def SortAddresses_def)

theorem relation_egress_override_or_default_witness:
  "getRelationEgressSubnets mysqlBase (serverRelation ''wordpress:db mysql:server'' False)
     = Inr [''10.0.0.0/24'']
   \<and> defaultEgress mysqlBase = [''0.0.0.0/0'']
   \<and> NetworksForRelation hostCIDR mysqlBase ''server''
         (serverRelation ''wordpress:db mysql:server'' False) False
       = Some (Inr (AlphaSpaceId,
           [\<lparr> Value = ''54.32.1.2'', Scope = ScopePublic \<rparr>,
            \<lparr> Value = ''252.0.16.1'', Scope = ScopeFanLocal \<rparr>], [''10.0.0.0/24'']))
   \<and> getRelationEgressSubnets mysqlBase (serverRelation ''mediawiki:db mysql:server'' False)
     = Inr [''0.0.0.0/0'']
   \<and> NetworksForRelation hostCIDR mysqlBase ''server''
         (serverRelation ''mediawiki:db mysql:server'' False) False
       = Some (Inr (AlphaSpaceId,
           [\<lparr> Value = ''54.32.1.2'', Scope = ScopePublic \<rparr>,
            \<lparr> Value = ''252.0.16.1'', Scope = ScopeFanLocal \<rparr>], [''0.0.0.0/0'']))"
proof -
  let ?r0 = "serverRelation ''wordpress:db mysql:server'' False"
  let ?r1 = "serverRelation ''mediawiki:db mysql:server'' False"
  have l0: "RelationEgressNetworks (st mysqlBase) (RelationTagId ?r0) = Inr [''10.0.0.0/24'']"
    by (simp add: mysqlBase_def mysqlState_def serverRelation_def)
  have l1: "RelationEgressNetworks (st mysqlBase) (RelationTagId ?r1)
      = Inl (NotFound ''egress networks not found'')
      \<and> IsNotFound (NotFound ''egress networks not found'')"
    by (simp add: mysqlBase_def mysqlState_def serverRelation_def)
  have d: "defaultEgress mysqlBase = [''0.0.0.0/0'']"
    by (simp add: mysqlBase_def)
  note t0 = relation_egress_override_or_default
    [of mysqlBase ?r0 "[''10.0.0.0/24'']" hostCIDR "''server''" False, THEN conjunct1, rule_format, OF l0]
  note t1 = relation_egress_override_or_default
    [of mysqlBase ?r1 _ hostCIDR "''server''" False _ _ _ "NotFound ''egress networks not found''",
     THEN conjunct2, rule_format, OF l1]
  from t0 t1 d mysql_resolve_0 mysql_resolve_1 show ?thesis
    by simp
qed

subsection \<open>Facts about the request processor\<close>

lemma validateEndpoints_snoc:
  "validateEndpoints n (endpoints @ [e]) = validateEndpoint n e (validateEndpoints n endpoints)"
  by (simp add: validateEndpoints_def)

lemma validateEndpoints_eq:
  "validateEndpoints n endpoints =
     ((\<lambda>e. if e \<in> set endpoints then bindings n e else None),
      (\<lambda>e. if e \<in> set endpoints \<and> bindings n e = None then Some (bindingNotDefined e) else None),
      (\<lambda>e. if e \<in> set endpoints then Some (defaultEgress n) else None))"
proof (induction endpoints rule: rev_induct)
  case Nil
  then show ?case by (simp add: validateEndpoints_def)
next
  case (snoc x xs)
  show ?case
    unfolding validateEndpoints_snoc snoc.IH
    by (cases "bindings n x") (auto simp: validateEndpoint_def fun_eq_iff)
qed

lemma set_rangeKeys: "set (rangeKeys n endpoints) = {e \<in> set endpoints. bindings n e \<noteq> None}"
  by (auto simp: rangeKeys_def)

lemma assembled_Cons:
  "bs k = Some space \<Longrightarrow> body k space = Inr info \<Longrightarrow>
   assembled body bs keys (results(k \<mapsto> info)) = assembled body bs (k # keys) results"
  by (auto simp: assembled_def fun_eq_iff split: option.splits sum.splits)

lemma assembled_skip:
  "bs k = None \<Longrightarrow> assembled body bs (k # keys) results = assembled body bs keys results"
  by (auto simp: assembled_def fun_eq_iff split: option.splits sum.splits)

lemma assembleResults_ok:
  "(\<forall>e \<in> set keys. \<forall>space. bs e = Some space \<longrightarrow> (\<exists>info. body e space = Inr info))
   \<Longrightarrow> assembleResults body bs keys results = Inr (assembled body bs keys results)"
proof (induction keys arbitrary: results)
  case Nil
  then show ?case by (simp add: assembled_def)
next
  case (Cons k keys)
  show ?case
  proof (cases "bs k")
    case None
    with Cons show ?thesis by (simp add: assembled_skip)
  next
    case (Some space)
    with Cons.prems obtain info where info: "body k space = Inr info" by auto
    from Cons.prems have rest:
      "\<forall>e \<in> set keys. \<forall>space. bs e = Some space \<longrightarrow> (\<exists>info. body e space = Inr info)"
      by simp
    have "assembleResults body bs (k # keys) results
        = assembleResults body bs keys (results(k \<mapsto> info))"
      using Some info by simp
    also have "\<dots> = Inr (assembled body bs keys (results(k \<mapsto> info)))"
      by (rule Cons.IH [OF rest])
    also have "\<dots> = Inr (assembled body bs (k # keys) results)"
      using assembled_Cons [of bs k space body info keys results] Some info by simp
    finally show ?thesis .
  qed
qed

lemma assembleResults_Inr_D:
  "assembleResults body bs keys results = Inr out
   \<Longrightarrow> \<forall>e \<in> set keys. \<forall>space. bs e = Some space \<longrightarrow> (\<exists>info. body e space = Inr info)"
proof (induction keys arbitrary: results)
  case Nil
  then show ?case by simp
next
  case (Cons k keys)
  then show ?case
    by (cases "bs k") (auto split: sum.splits)
qed

lemma assembleResults_Inr_iff:
  "assembleResults body bs keys results = Inr out \<longleftrightarrow>
     (\<forall>e \<in> set keys. \<forall>space. bs e = Some space \<longrightarrow> (\<exists>info. body e space = Inr info))
     \<and> out = assembled body bs keys results"
  using assembleResults_ok [of keys bs body results] assembleResults_Inr_D [of body bs keys results out]
  by auto

lemma ProcessAPIRequest_Inr:
  "ProcessAPIRequest toCIDR n args = Some (Inr results) \<Longrightarrow>
   processWithRelation toCIDR n (Endpoints args) (resolvedRelation toCIDR n args) = Inr results"
  by (auto simp: ProcessAPIRequest_def resolvedRelation_def
      split: option.splits sum.splits bind_splits)

lemma processWithRelation_Inr:
  assumes "processWithRelation toCIDR n endpoints relation = Inr results"
  shows "\<exists>addrs. AllAddresses (unit n) = Inr addrs
     \<and> (\<forall>e \<in> set endpoints. \<forall>space. bindings n e = Some space \<longrightarrow>
           (\<exists>info. endpointInfo toCIDR (alphaNetworkInfos (SortAddresses addrs))
                (relationEgressSubnets (\<lambda>e. if e \<in> set endpoints then Some (defaultEgress n) else None)
                   relation)
                (relationIngressAddresses relation)
                (defaultIngressAddresses (SortAddresses addrs)) e space = Inr info
              \<and> results e = Some (dedupResult info)))
     \<and> (\<forall>e \<in> set endpoints. bindings n e = None \<longrightarrow> results e = Some (bindingNotDefined e))
     \<and> (\<forall>e. e \<notin> set endpoints \<longrightarrow> results e = None)"
proof -
  from assms obtain addrs where a: "AllAddresses (unit n) = Inr addrs"
    by (auto simp: processWithRelation_def validateEndpoints_eq split: sum.splits)
  let ?body = "endpointInfo toCIDR (alphaNetworkInfos (SortAddresses addrs))
      (relationEgressSubnets (\<lambda>e. if e \<in> set endpoints then Some (defaultEgress n) else None) relation)
      (relationIngressAddresses relation) (defaultIngressAddresses (SortAddresses addrs))"
  let ?bs = "\<lambda>e. if e \<in> set endpoints then bindings n e else None"
  let ?r0 = "\<lambda>e. if e \<in> set endpoints \<and> bindings n e = None then Some (bindingNotDefined e) else None"
  from assms a obtain out where
    out: "assembleResults ?body ?bs (rangeKeys n endpoints) ?r0 = Inr out"
    and res: "results = dedupNetworkInfoResults out"
    by (auto simp: processWithRelation_def validateEndpoints_eq split: sum.splits)
  from out have ok: "\<forall>e \<in> set (rangeKeys n endpoints). \<forall>space. ?bs e = Some space \<longrightarrow>
      (\<exists>info. ?body e space = Inr info)"
    and o: "out = assembled ?body ?bs (rangeKeys n endpoints) ?r0"
    by (simp_all add: assembleResults_Inr_iff)
  have bound: "\<forall>e \<in> set endpoints. \<forall>space. bindings n e = Some space \<longrightarrow>
      (\<exists>info. ?body e space = Inr info \<and> results e = Some (dedupResult info))"
  proof (intro ballI allI impI)
    fix e space assume e: "e \<in> set endpoints" and b: "bindings n e = Some space"
    then have k: "e \<in> set (rangeKeys n endpoints)" by (simp add: set_rangeKeys)
    from ok k e b have "\<exists>info. ?body e space = Inr info" by simp
    then obtain info where i: "?body e space = Inr info" ..
    have "out e = Some info"
      using k e b i by (simp add: o assembled_def)
    then have "results e = Some (dedupResult info)"
      by (simp add: res dedupNetworkInfoResults_def)
    with i show "\<exists>info. ?body e space = Inr info \<and> results e = Some (dedupResult info)"
      by blast
  qed
  have nd: "dedupResult (bindingNotDefined e) = bindingNotDefined e" for e
    by (simp add: dedupResult_def bindingNotDefined_def)
  have unbound: "\<forall>e \<in> set endpoints. bindings n e = None \<longrightarrow> results e = Some (bindingNotDefined e)"
    by (simp add: res o assembled_def dedupNetworkInfoResults_def nd)
  have absent: "\<forall>e. e \<notin> set endpoints \<longrightarrow> results e = None"
    by (simp add: res o assembled_def dedupNetworkInfoResults_def set_rangeKeys)
  from a bound unbound absent show ?thesis by blast
qed

lemma FormatAsCIDR_single:
  "FormatAsCIDR toCIDR [a] = Inr egress \<longleftrightarrow> (\<exists>cidr. toCIDR a = Inr cidr \<and> egress = [cidr])"
  by (auto split: sum.splits)

lemma relationNetworks_Inr:
  assumes "relationNetworks toCIDR n egress0 polled = Inr (space, ingress, egress)"
  shows "space = AlphaSpaceId
    \<and> ingress = SortAddresses (if polled = [] then nonLocalAddresses (AllAddresses (unit n)) else polled)
    \<and> (egress0 = [] \<and> ingress \<noteq> [] \<longrightarrow>
         (\<exists>cidr. toCIDR (Value (hd ingress)) = Inr cidr \<and> egress = [cidr]))
    \<and> (egress0 = [] \<and> ingress = [] \<longrightarrow> egress = [])
    \<and> (egress0 \<noteq> [] \<longrightarrow> egress = egress0)"
  using assms
  by (auto simp: relationNetworks_def Let_def FormatAsCIDR_single split: if_splits sum.splits)

lemma endpointInfo_Inr:
  assumes "endpointInfo toCIDR networkInfos endpointEgressSubnets endpointIngressAddresses
       defaultIngress endpoint space = Inr info"
  shows "Error info = None
    \<and> Info info = NetworkInfos (lookupNetworkInfos networkInfos space)
    \<and> IngressAddresses info =
        (if lookupList endpointIngressAddresses endpoint \<noteq> []
         then map Value (lookupList endpointIngressAddresses endpoint)
         else if defaultIngress \<noteq> [] then defaultIngress
         else map Value (SortAddresses (spaceAddressesFromNetworkInfo
                (NetworkInfos (lookupNetworkInfos networkInfos space)))))
    \<and> (lookupList endpointEgressSubnets endpoint = [] \<and> IngressAddresses info \<noteq> [] \<longrightarrow>
         (\<exists>cidr. toCIDR (hd (IngressAddresses info)) = Inr cidr \<and> EgressSubnets info = [cidr]))
    \<and> (lookupList endpointEgressSubnets endpoint = [] \<and> IngressAddresses info = [] \<longrightarrow>
         EgressSubnets info = [])
    \<and> (lookupList endpointEgressSubnets endpoint \<noteq> [] \<longrightarrow>
         EgressSubnets info = lookupList endpointEgressSubnets endpoint)"
  using assms
  by (auto simp: endpointInfo_def Let_def FormatAsCIDR_single
      machineNetworkInfoResultToNetworkInfoResult_def emptyNetworkInfoResult_def
      split: if_splits sum.splits)

lemmas request_eval = ProcessAPIRequest_def processWithRelation_def validateEndpoints_def
  validateEndpoint_def rangeKeys_def endpointInfo_def alphaNetworkInfos_def
  relationEgressSubnets_def relationIngressAddresses_def defaultIngressAddresses_def
  interfaceAddr_def lookupList_def lookupNetworkInfos_def
  machineNetworkInfoResultToNetworkInfoResult_def emptyNetworkInfoResult_def
  emptyNetworkInfo_def emptyInterfaceAddress_def dedupNetworkInfoResults_def dedupResult_def
  dedupStringListPreservingOrder_def dedupAddrList_def SortAddresses_def AlphaSpaceId_def
  bindingNotDefined_def spaceAddressesFromNetworkInfo_def

lemmas relation_eval = getRelationNetworkInfo_def getRelationAndEndpointName_def
  NetworksForRelation_def getRelationEgressSubnets_def relationNetworks_def
  nonLocalAddresses_def maybeGetUnitAddress_def pollPrivateAddress_def pollForAddress_def
  retryCall_def pollIsFatalError_def retryLoop.simps defaultRetryFactory_def
  ServiceTypeConfigKey_def ServiceTypeLoadBalancer_def ServiceTypeExternalName_def

lemmas mysql_eval = mysqlNoEgress_def mysqlBase_def mysqlUnit_def mysqlAddresses_def
  mysqlState_def serverRelation_def hostCIDR_def neverAssigned_def privateAfterTwoRetries_def

lemma lookup_relationEgressSubnets:
  "endpoint \<in> set endpoints \<Longrightarrow>
   lookupList (relationEgressSubnets (\<lambda>e. if e \<in> set endpoints then Some (defaultEgress n) else None)
       relation) endpoint
     = endpointEgress n relation endpoint"
  by (auto simp: lookupList_def relationEgressSubnets_def endpointEgress_def split: option.splits)

lemma dedupString_hd:
  "xs \<noteq> [] \<Longrightarrow> dedupStringListPreservingOrder xs \<noteq> []
     \<and> hd (dedupStringListPreservingOrder xs) = hd xs"
  by (simp add: dedupString_keepUnseen keepUnseen_hd)

lemma dedupString_Nil_iff: "dedupStringListPreservingOrder xs = [] \<longleftrightarrow> xs = []"
  by (simp add: dedupString_keepUnseen keepUnseen_Nil_iff)

lemma dedupString_distinct: "distinct xs \<Longrightarrow> dedupStringListPreservingOrder xs = xs"
  by (simp add: dedupString_keepUnseen keepUnseen_fixed)

lemma request_bound_result:
  assumes ok: "ProcessAPIRequest toCIDR n args = Some (Inr results)"
    and res: "results endpoint = Some res"
    and noerr: "Error res = None"
  shows "\<exists>addrs space info. AllAddresses (unit n) = Inr addrs
    \<and> endpoint \<in> set (Endpoints args) \<and> bindings n endpoint = Some space
    \<and> endpointInfo toCIDR (alphaNetworkInfos (SortAddresses addrs))
         (relationEgressSubnets
            (\<lambda>e. if e \<in> set (Endpoints args) then Some (defaultEgress n) else None)
            (resolvedRelation toCIDR n args))
         (relationIngressAddresses (resolvedRelation toCIDR n args))
         (defaultIngressAddresses (SortAddresses addrs)) endpoint space = Inr info
    \<and> res = dedupResult info"
proof -
  note p = processWithRelation_Inr [OF ProcessAPIRequest_Inr [OF ok]]
  then obtain addrs where a: "AllAddresses (unit n) = Inr addrs" by blast
  from p res have mem: "endpoint \<in> set (Endpoints args)" by force
  have "bindings n endpoint \<noteq> None"
  proof
    assume "bindings n endpoint = None"
    with p mem have "results endpoint = Some (bindingNotDefined endpoint)" by blast
    with res have "res = bindingNotDefined endpoint" by simp
    with noerr show False
      by (simp add: bindingNotDefined_def)
  qed
  then obtain space where b: "bindings n endpoint = Some space" by blast
  from p a mem b res show ?thesis by force
qed

text \<open>
  Claim C5. In \<^verbatim>\<open>NetworksForRelation\<close> and in the result that
  \<^verbatim>\<open>ProcessAPIRequest\<close> returns for an endpoint: when the egress list is empty after
  the fallbacks (override or default; egress of the relation or default) and the ingress list
  is not, the egress returned is the single-host CIDR of the first ingress address of the
  sorted list; when the egress list is not empty it is not replaced (the request processor
  returns it with later duplicates removed, as it does every list).
\<close>

theorem egress_defaults_to_first_ingress:
  "(NetworksForRelation toCIDR n binding rel pollAddr = Some (Inr (space, ingress, egress)) \<longrightarrow>
      (\<exists>egress0. getRelationEgressSubnets n rel = Inr egress0
         \<and> (egress0 = [] \<and> ingress \<noteq> [] \<longrightarrow>
               (\<exists>cidr. toCIDR (Value (hd ingress)) = Inr cidr \<and> egress = [cidr]))
         \<and> (egress0 \<noteq> [] \<longrightarrow> egress = egress0)))
   \<and> (ProcessAPIRequest toCIDR n args = Some (Inr results) \<and> results endpoint = Some res
        \<and> Error res = None \<longrightarrow>
      (endpointEgress n (resolvedRelation toCIDR n args) endpoint = [] \<and> IngressAddresses res \<noteq> [] \<longrightarrow>
         (\<exists>cidr. toCIDR (hd (IngressAddresses res)) = Inr cidr \<and> EgressSubnets res = [cidr]))
      \<and> (endpointEgress n (resolvedRelation toCIDR n args) endpoint \<noteq> [] \<longrightarrow>
         EgressSubnets res
           = dedupStringListPreservingOrder (endpointEgress n (resolvedRelation toCIDR n args) endpoint)
         \<and> (distinct (endpointEgress n (resolvedRelation toCIDR n args) endpoint) \<longrightarrow>
              EgressSubnets res = endpointEgress n (resolvedRelation toCIDR n args) endpoint)))"
proof (intro conjI impI)
  assume "NetworksForRelation toCIDR n binding rel pollAddr = Some (Inr (space, ingress, egress))"
  then obtain egress0 polled where g: "getRelationEgressSubnets n rel = Inr egress0"
    and r: "relationNetworks toCIDR n egress0 polled = Inr (space, ingress, egress)"
    by (blast dest: NetworksForRelation_Inr)
  from relationNetworks_Inr [OF r] g
  show "\<exists>egress0. getRelationEgressSubnets n rel = Inr egress0
         \<and> (egress0 = [] \<and> ingress \<noteq> [] \<longrightarrow>
               (\<exists>cidr. toCIDR (Value (hd ingress)) = Inr cidr \<and> egress = [cidr]))
         \<and> (egress0 \<noteq> [] \<longrightarrow> egress = egress0)"
    by blast
next
  let ?egress0 = "endpointEgress n (resolvedRelation toCIDR n args) endpoint"
  assume h: "ProcessAPIRequest toCIDR n args = Some (Inr results) \<and> results endpoint = Some res
        \<and> Error res = None"
  then obtain addrs space info where mem: "endpoint \<in> set (Endpoints args)"
    and i: "endpointInfo toCIDR (alphaNetworkInfos (SortAddresses addrs))
         (relationEgressSubnets
            (\<lambda>e. if e \<in> set (Endpoints args) then Some (defaultEgress n) else None)
            (resolvedRelation toCIDR n args))
         (relationIngressAddresses (resolvedRelation toCIDR n args))
         (defaultIngressAddresses (SortAddresses addrs)) endpoint space = Inr info"
    and d: "res = dedupResult info"
    using request_bound_result [of toCIDR n args results endpoint res] by blast
  note f = endpointInfo_Inr [OF i, unfolded lookup_relationEgressSubnets [OF mem]]
  from f have e: "Error info = None" by simp
  have eg: "EgressSubnets res = dedupStringListPreservingOrder (EgressSubnets info)"
    and ing: "IngressAddresses res = dedupStringListPreservingOrder (IngressAddresses info)"
    using e by (simp_all add: d dedupResult_def)
  {
    assume a: "?egress0 = [] \<and> IngressAddresses res \<noteq> []"
    then have ne: "IngressAddresses info \<noteq> []"
      by (simp add: ing dedupString_Nil_iff)
    with f a obtain cidr where c: "toCIDR (hd (IngressAddresses info)) = Inr cidr"
      and e1: "EgressSubnets info = [cidr]"
      by blast
    have "hd (IngressAddresses res) = hd (IngressAddresses info)"
      using ne by (simp add: ing dedupString_hd)
    moreover have "EgressSubnets res = [cidr]"
      by (simp add: eg e1 dedupString_distinct)
    ultimately show "\<exists>cidr. toCIDR (hd (IngressAddresses res)) = Inr cidr \<and> EgressSubnets res = [cidr]"
      using c by simp
  }
  {
    assume a: "?egress0 \<noteq> []"
    with f have k: "EgressSubnets info = ?egress0" by blast
    show "EgressSubnets res = dedupStringListPreservingOrder ?egress0"
      by (simp add: eg k)
    assume "distinct ?egress0"
    then show "EgressSubnets res = ?egress0"
      by (simp add: eg k dedupString_distinct)
  }
qed

lemma mysqlNoEgress_resolve:
  "NetworksForRelation hostCIDR mysqlNoEgress ''server''
       (serverRelation ''mediawiki:db mysql:server'' False) False
     = Some (Inr (AlphaSpaceId,
         [\<lparr> Value = ''54.32.1.2'', Scope = ScopePublic \<rparr>,
          \<lparr> Value = ''252.0.16.1'', Scope = ScopeFanLocal \<rparr>], [''54.32.1.2/32'']))"
  by (simp add: relation_eval mysql_eval SortAddresses_def)

lemma mysqlNoEgress_request:
  "\<exists>results. ProcessAPIRequest hostCIDR mysqlNoEgress \<lparr> Endpoints = [''server''], RelationId = None \<rparr>
       = Some (Inr results)
     \<and> results ''server'' = Some
          \<lparr> Info = [\<lparr> MACAddress = [], InterfaceName = [],
                      Addresses = [\<lparr> Hostname = [], Address = ''127.0.0.1'', CIDR = [] \<rparr>] \<rparr>],
            EgressSubnets = [''54.32.1.2/32''],
            IngressAddresses = [''54.32.1.2'', ''252.0.16.1''],
            Error = None \<rparr>"
  by (simp add: request_eval mysql_eval)

theorem egress_defaults_to_first_ingress_witness:
  "(\<exists>ingress egress.
      NetworksForRelation hostCIDR mysqlNoEgress ''server''
         (serverRelation ''mediawiki:db mysql:server'' False) False
       = Some (Inr (AlphaSpaceId, ingress, egress))
      \<and> getRelationEgressSubnets mysqlNoEgress (serverRelation ''mediawiki:db mysql:server'' False)
          = Inr []
      \<and> ingress \<noteq> []
      \<and> hostCIDR (Value (hd ingress)) = Inr ''54.32.1.2/32'' \<and> egress = [''54.32.1.2/32''])
   \<and> (\<exists>results res.
      ProcessAPIRequest hostCIDR mysqlNoEgress \<lparr> Endpoints = [''server''], RelationId = None \<rparr>
       = Some (Inr results)
      \<and> results ''server'' = Some res \<and> Error res = None
      \<and> endpointEgress mysqlNoEgress
           (resolvedRelation hostCIDR mysqlNoEgress \<lparr> Endpoints = [''server''], RelationId = None \<rparr>)
           ''server'' = []
      \<and> IngressAddresses res \<noteq> []
      \<and> hostCIDR (hd (IngressAddresses res)) = Inr ''54.32.1.2/32''
      \<and> EgressSubnets res = [''54.32.1.2/32''])"
proof -
  let ?rel = "serverRelation ''mediawiki:db mysql:server'' False"
  let ?args = "\<lparr> Endpoints = [''server''], RelationId = None \<rparr>"
  let ?ingress = "[\<lparr> Value = ''54.32.1.2'', Scope = ScopePublic \<rparr>,
          \<lparr> Value = ''252.0.16.1'', Scope = ScopeFanLocal \<rparr>]"
  have g: "getRelationEgressSubnets mysqlNoEgress ?rel = Inr []"
    by (simp add: relation_eval mysql_eval)
  from egress_defaults_to_first_ingress
    [of hostCIDR mysqlNoEgress "''server''" ?rel False AlphaSpaceId ?ingress "[''54.32.1.2/32'']",
      THEN conjunct1, rule_format, OF mysqlNoEgress_resolve] g
  have "\<exists>cidr. hostCIDR (Value (hd ?ingress)) = Inr cidr \<and> [''54.32.1.2/32''] = [cidr]"
    by simp
  with g mysqlNoEgress_resolve have first: "\<exists>ingress egress.
      NetworksForRelation hostCIDR mysqlNoEgress ''server'' ?rel False
       = Some (Inr (AlphaSpaceId, ingress, egress))
      \<and> getRelationEgressSubnets mysqlNoEgress ?rel = Inr []
      \<and> ingress \<noteq> []
      \<and> hostCIDR (Value (hd ingress)) = Inr ''54.32.1.2/32'' \<and> egress = [''54.32.1.2/32'']"
    by auto
  from mysqlNoEgress_request obtain results res where
    r: "ProcessAPIRequest hostCIDR mysqlNoEgress ?args = Some (Inr results)"
    and s: "results ''server'' = Some res"
    and v: "Error res = None" "IngressAddresses res = [''54.32.1.2'', ''252.0.16.1'']"
    by force
  have e0: "endpointEgress mysqlNoEgress (resolvedRelation hostCIDR mysqlNoEgress ?args) ''server'' = []"
    by (simp add: endpointEgress_def resolvedRelation_def mysql_eval)
  from egress_defaults_to_first_ingress
    [of hostCIDR mysqlNoEgress _ _ _ _ _ _ ?args results "''server''" res, THEN conjunct2]
    r s v e0
  have "\<exists>cidr. hostCIDR (hd (IngressAddresses res)) = Inr cidr \<and> EgressSubnets res = [cidr]"
    by simp
  then have "hostCIDR (hd (IngressAddresses res)) = Inr ''54.32.1.2/32''
      \<and> EgressSubnets res = [''54.32.1.2/32'']"
    using v by (auto simp: hostCIDR_def)
  with r s v e0 have second: "\<exists>results res.
      ProcessAPIRequest hostCIDR mysqlNoEgress ?args = Some (Inr results)
      \<and> results ''server'' = Some res \<and> Error res = None
      \<and> endpointEgress mysqlNoEgress (resolvedRelation hostCIDR mysqlNoEgress ?args) ''server'' = []
      \<and> IngressAddresses res \<noteq> []
      \<and> hostCIDR (hd (IngressAddresses res)) = Inr ''54.32.1.2/32''
      \<and> EgressSubnets res = [''54.32.1.2/32'']"
    by auto
  from first second show ?thesis by blast
qed

text \<open>
  Claim C6. In \<^verbatim>\<open>NetworksForRelation\<close>, when polling is disabled or polling yielded
  no address, the ingress returned is exactly the known addresses of the unit whose scope is
  not machine-local (the same addresses, as often), in the order of the scope-aware sort; no
  machine-local address is among them.
\<close>

theorem ingress_is_sorted_non_local_addresses:
  assumes resolved: "NetworksForRelation toCIDR n binding rel pollAddr
        = Some (Inr (space, ingress, egress))"
    and nothing_polled: "pollAddr \<longrightarrow> maybeGetUnitAddress n rel = Some (Inr [])"
    and known: "AllAddresses (unit n) = Inr addrs"
  shows "ingress = SortAddresses (filter (\<lambda>a. Scope a \<noteq> ScopeMachineLocal) addrs)
    \<and> mset ingress = mset (filter (\<lambda>a. Scope a \<noteq> ScopeMachineLocal) addrs)
    \<and> set ingress = {a \<in> set addrs. Scope a \<noteq> ScopeMachineLocal}
    \<and> (\<forall>a \<in> set ingress. Scope a \<noteq> ScopeMachineLocal)
    \<and> sorted (map (\<lambda>a. scopeRank (Scope a)) ingress)"
proof -
  from NetworksForRelation_Inr [OF resolved]
  obtain egress0 polled where
    p: "if pollAddr then maybeGetUnitAddress n rel = Some (Inr polled) else polled = []"
    and r: "relationNetworks toCIDR n egress0 polled = Inr (space, ingress, egress)"
    by blast
  from p nothing_polled have "polled = []"
    by (cases pollAddr) simp_all
  with relationNetworks_Inr [OF r] known
  have i: "ingress = SortAddresses (filter (\<lambda>a. Scope a \<noteq> ScopeMachineLocal) addrs)"
    by (simp add: nonLocalAddresses_def)
  then have m: "mset ingress = mset (filter (\<lambda>a. Scope a \<noteq> ScopeMachineLocal) addrs)"
    by (simp add: SortAddresses_def)
  from i have s: "set ingress = {a \<in> set addrs. Scope a \<noteq> ScopeMachineLocal}"
    by (auto simp: SortAddresses_def)
  from i have o: "sorted (map (\<lambda>a. scopeRank (Scope a)) ingress)"
    by (simp add: SortAddresses_def)
  from i m s o show ?thesis by blast
qed

lemma mysql_resolve_0_polling:
  "NetworksForRelation hostCIDR mysqlBase ''server''
       (serverRelation ''wordpress:db mysql:server'' False) True
     = Some (Inr (AlphaSpaceId,
         [\<lparr> Value = ''54.32.1.2'', Scope = ScopePublic \<rparr>,
          \<lparr> Value = ''252.0.16.1'', Scope = ScopeFanLocal \<rparr>], [''10.0.0.0/24'']))"
  by (simp add: relation_eval mysql_eval SortAddresses_def)

theorem ingress_is_sorted_non_local_addresses_witness:
  "maybeGetUnitAddress mysqlBase (serverRelation ''wordpress:db mysql:server'' False) = Some (Inr [])
   \<and> AllAddresses (unit mysqlBase) = Inr mysqlAddresses
   \<and> NetworksForRelation hostCIDR mysqlBase ''server''
         (serverRelation ''wordpress:db mysql:server'' False) True
       = Some (Inr (AlphaSpaceId,
           [\<lparr> Value = ''54.32.1.2'', Scope = ScopePublic \<rparr>,
            \<lparr> Value = ''252.0.16.1'', Scope = ScopeFanLocal \<rparr>], [''10.0.0.0/24'']))
   \<and> [\<lparr> Value = ''54.32.1.2'', Scope = ScopePublic \<rparr>,
       \<lparr> Value = ''252.0.16.1'', Scope = ScopeFanLocal \<rparr>]
      = SortAddresses (filter (\<lambda>a. Scope a \<noteq> ScopeMachineLocal) mysqlAddresses)
   \<and> \<lparr> Value = ''127.0.0.1'', Scope = ScopeMachineLocal \<rparr> \<in> set mysqlAddresses"
proof -
  let ?rel = "serverRelation ''wordpress:db mysql:server'' False"
  have p0: "maybeGetUnitAddress mysqlBase ?rel = Some (Inr [])"
    by (simp add: maybeGetUnitAddress_def serverRelation_def)
  then have p: "True \<longrightarrow> maybeGetUnitAddress mysqlBase ?rel = Some (Inr [])"
    by (rule impI)
  have k: "AllAddresses (unit mysqlBase) = Inr mysqlAddresses"
    by (simp add: mysqlBase_def mysqlUnit_def)
  have l: "\<lparr> Value = ''127.0.0.1'', Scope = ScopeMachineLocal \<rparr> \<in> set mysqlAddresses"
    by (simp add: mysqlAddresses_def)
  note t = ingress_is_sorted_non_local_addresses [OF mysql_resolve_0_polling p k, THEN conjunct1]
  from p0 k mysql_resolve_0_polling t l show ?thesis
    by (intro conjI)
qed

lemma endpointInfo_cong:
  "lookupList eg e = lookupList eg' e \<Longrightarrow> lookupList ing e = lookupList ing' e \<Longrightarrow>
   endpointInfo toCIDR networkInfos eg ing defaultIngress e space
     = endpointInfo toCIDR networkInfos eg' ing' defaultIngress e space"
  by (simp add: endpointInfo_def)

lemma requestInfo_eq:
  "e \<in> set endpoints \<Longrightarrow>
   endpointInfo toCIDR (alphaNetworkInfos (SortAddresses addrs))
     (relationEgressSubnets (\<lambda>e. if e \<in> set endpoints then Some (defaultEgress n) else None) relation)
     (relationIngressAddresses relation) (defaultIngressAddresses (SortAddresses addrs)) e space
   = requestInfo toCIDR n relation addrs e space"
  unfolding requestInfo_def
  by (rule endpointInfo_cong) (simp_all add: lookup_relationEgressSubnets, simp add: lookupList_def)

lemma processWithRelation_Inr_iff:
  "processWithRelation toCIDR n endpoints relation = Inr results \<longleftrightarrow>
     (\<exists>addrs. AllAddresses (unit n) = Inr addrs
        \<and> (\<forall>e \<in> set endpoints. \<forall>space. bindings n e = Some space \<longrightarrow>
              (\<exists>info. requestInfo toCIDR n relation addrs e space = Inr info))
        \<and> results = requestResults toCIDR n relation addrs endpoints)"
proof (cases "AllAddresses (unit n)")
  case (Inl err)
  then show ?thesis
    by (simp add: processWithRelation_def validateEndpoints_eq)
next
  case (Inr addrs)
  let ?body = "endpointInfo toCIDR (alphaNetworkInfos (SortAddresses addrs))
      (relationEgressSubnets (\<lambda>e. if e \<in> set endpoints then Some (defaultEgress n) else None) relation)
      (relationIngressAddresses relation) (defaultIngressAddresses (SortAddresses addrs))"
  let ?bs = "\<lambda>e. if e \<in> set endpoints then bindings n e else None"
  let ?r0 = "\<lambda>e. if e \<in> set endpoints \<and> bindings n e = None then Some (bindingNotDefined e) else None"
  let ?keys = "rangeKeys n endpoints"
  let ?ok = "\<forall>e \<in> set endpoints. \<forall>space. bindings n e = Some space \<longrightarrow>
      (\<exists>info. requestInfo toCIDR n relation addrs e space = Inr info)"
  have p: "processWithRelation toCIDR n endpoints relation =
      (case assembleResults ?body ?bs ?keys ?r0 of
         Inl err \<Rightarrow> Inl err | Inr out \<Rightarrow> Inr (dedupNetworkInfoResults out))"
    by (simp add: processWithRelation_def validateEndpoints_eq Inr)
  have ok_iff: "(\<forall>e \<in> set ?keys. \<forall>space. ?bs e = Some space \<longrightarrow> (\<exists>info. ?body e space = Inr info))
      \<longleftrightarrow> ?ok"
    by (auto simp: set_rangeKeys requestInfo_eq)
  have nd: "dedupResult (bindingNotDefined e) = bindingNotDefined e" for e
    by (simp add: dedupResult_def bindingNotDefined_def)
  have out: "?ok \<Longrightarrow> dedupNetworkInfoResults (assembled ?body ?bs ?keys ?r0)
      = requestResults toCIDR n relation addrs endpoints"
  proof (rule ext)
    fix e assume ok: ?ok
    show "dedupNetworkInfoResults (assembled ?body ?bs ?keys ?r0) e
      = requestResults toCIDR n relation addrs endpoints e"
    proof (cases "e \<in> set endpoints")
      case False
      then show ?thesis
        by (simp add: dedupNetworkInfoResults_def assembled_def requestResults_def set_rangeKeys)
    next
      case True
      show ?thesis
      proof (cases "bindings n e")
        case None
        with True show ?thesis
          by (simp add: dedupNetworkInfoResults_def assembled_def requestResults_def
              set_rangeKeys nd)
      next
        case (Some space)
        with ok True obtain info where "requestInfo toCIDR n relation addrs e space = Inr info"
          by blast
        with True Some show ?thesis
          by (simp add: dedupNetworkInfoResults_def assembled_def requestResults_def
              set_rangeKeys requestInfo_eq)
      qed
    qed
  qed
  show ?thesis
  proof
    assume a: "processWithRelation toCIDR n endpoints relation = Inr results"
    then obtain o' where o: "assembleResults ?body ?bs ?keys ?r0 = Inr o'"
      and r: "results = dedupNetworkInfoResults o'"
      unfolding p by (auto split: sum.splits)
    from o have ok: ?ok and o': "o' = assembled ?body ?bs ?keys ?r0"
      unfolding assembleResults_Inr_iff ok_iff by simp_all
    from out [OF ok] r o' have "results = requestResults toCIDR n relation addrs endpoints"
      by simp
    with ok Inr show "\<exists>addrs. AllAddresses (unit n) = Inr addrs
        \<and> (\<forall>e \<in> set endpoints. \<forall>space. bindings n e = Some space \<longrightarrow>
              (\<exists>info. requestInfo toCIDR n relation addrs e space = Inr info))
        \<and> results = requestResults toCIDR n relation addrs endpoints"
      by blast
  next
    assume "\<exists>addrs. AllAddresses (unit n) = Inr addrs
        \<and> (\<forall>e \<in> set endpoints. \<forall>space. bindings n e = Some space \<longrightarrow>
              (\<exists>info. requestInfo toCIDR n relation addrs e space = Inr info))
        \<and> results = requestResults toCIDR n relation addrs endpoints"
    with Inr have ok: ?ok and r: "results = requestResults toCIDR n relation addrs endpoints"
      by auto
    from ok have "assembleResults ?body ?bs ?keys ?r0 = Inr (assembled ?body ?bs ?keys ?r0)"
      unfolding ok_iff [symmetric] by (rule assembleResults_ok)
    then show "processWithRelation toCIDR n endpoints relation = Inr results"
      unfolding p using out [OF ok] r by simp
  qed
qed

lemma ProcessAPIRequest_Inr_iff:
  "ProcessAPIRequest toCIDR n args = Some (Inr results) \<longleftrightarrow>
     (\<forall>relationId. RelationId args = Some relationId \<longrightarrow>
         (\<exists>r. getRelationNetworkInfo toCIDR n relationId = Some (Inr r)))
     \<and> processWithRelation toCIDR n (Endpoints args) (resolvedRelation toCIDR n args) = Inr results"
  by (auto simp: ProcessAPIRequest_def resolvedRelation_def
      split: option.splits sum.splits bind_splits)

lemma resolvedRelation_Endpoints [simp]:
  "resolvedRelation toCIDR n (args \<lparr> Endpoints := endpoints \<rparr>) = resolvedRelation toCIDR n args"
  by (simp add: resolvedRelation_def)

lemma requestResults_dom:
  assumes "\<forall>e \<in> set endpoints. \<forall>space. bindings n e = Some space \<longrightarrow>
      (\<exists>info. requestInfo toCIDR n relation addrs e space = Inr info)"
  shows "dom (requestResults toCIDR n relation addrs endpoints) = set endpoints"
proof -
  have "requestResults toCIDR n relation addrs endpoints e \<noteq> None \<longleftrightarrow> e \<in> set endpoints" for e
    using assms by (cases "bindings n e") (auto simp: requestResults_def split: sum.splits)
  then show ?thesis by (auto simp: dom_def)
qed

lemma requestInfo_no_error: "requestInfo toCIDR n relation addrs e space = Inr info \<Longrightarrow> Error info = None"
  unfolding requestInfo_def by (drule endpointInfo_Inr) simp

lemma dedupResult_Error [simp]: "Error (dedupResult res) = Error res"
  by (simp add: dedupResult_def)

text \<open>
  Claim C8. A request to \<^verbatim>\<open>ProcessAPIRequest\<close> that meets no fatal condition yields
  exactly one entry for each requested endpoint name and none for any other name. An
  endpoint that the bindings of the application do not have gets the not-valid error for that
  endpoint and nothing else; every bound endpoint gets a result without error; and the
  results of the bound endpoints are those of the same request without the unbound names.
\<close>

theorem one_result_per_requested_endpoint:
  assumes ok: "ProcessAPIRequest toCIDR n args = Some (Inr results)"
  shows "dom results = set (Endpoints args)
    \<and> (\<forall>e \<in> set (Endpoints args). bindings n e = None \<longrightarrow>
          results e = Some (bindingNotDefined e)
          \<and> Error (bindingNotDefined e) = Some (NotValid e))
    \<and> (\<forall>e \<in> set (Endpoints args). bindings n e \<noteq> None \<longrightarrow>
          (\<exists>res. results e = Some res \<and> Error res = None))
    \<and> (\<exists>results'.
          ProcessAPIRequest toCIDR n
              (args \<lparr> Endpoints := filter (\<lambda>e. bindings n e \<noteq> None) (Endpoints args) \<rparr>)
            = Some (Inr results')
          \<and> dom results' = {e \<in> set (Endpoints args). bindings n e \<noteq> None}
          \<and> (\<forall>e. bindings n e \<noteq> None \<longrightarrow> results' e = results e))"
proof -
  let ?rel = "resolvedRelation toCIDR n args"
  let ?eps = "Endpoints args"
  let ?bound = "filter (\<lambda>e. bindings n e \<noteq> None) ?eps"
  from ok have relok: "\<forall>relationId. RelationId args = Some relationId \<longrightarrow>
         (\<exists>r. getRelationNetworkInfo toCIDR n relationId = Some (Inr r))"
    and p: "processWithRelation toCIDR n ?eps ?rel = Inr results"
    by (simp_all add: ProcessAPIRequest_Inr_iff)
  from p obtain addrs where a: "AllAddresses (unit n) = Inr addrs"
    and infos: "\<forall>e \<in> set ?eps. \<forall>space. bindings n e = Some space \<longrightarrow>
              (\<exists>info. requestInfo toCIDR n ?rel addrs e space = Inr info)"
    and r: "results = requestResults toCIDR n ?rel addrs ?eps"
    unfolding processWithRelation_Inr_iff by blast
  have d: "dom results = set ?eps"
    unfolding r by (rule requestResults_dom [OF infos])
  have u: "\<forall>e \<in> set ?eps. bindings n e = None \<longrightarrow>
          results e = Some (bindingNotDefined e) \<and> Error (bindingNotDefined e) = Some (NotValid e)"
    by (simp add: r requestResults_def bindingNotDefined_def)
  have b: "\<forall>e \<in> set ?eps. bindings n e \<noteq> None \<longrightarrow> (\<exists>res. results e = Some res \<and> Error res = None)"
  proof (intro ballI impI)
    fix e assume e: "e \<in> set ?eps" and "bindings n e \<noteq> None"
    then obtain space where s: "bindings n e = Some space" by blast
    with infos e obtain info where i: "requestInfo toCIDR n ?rel addrs e space = Inr info"
      by blast
    from e s i have "results e = Some (dedupResult info)"
      by (simp add: r requestResults_def)
    moreover have "Error (dedupResult info) = None"
      using requestInfo_no_error [OF i] by simp
    ultimately show "\<exists>res. results e = Some res \<and> Error res = None" by blast
  qed
  let ?results' = "requestResults toCIDR n ?rel addrs ?bound"
  have infos': "\<forall>e \<in> set ?bound. \<forall>space. bindings n e = Some space \<longrightarrow>
              (\<exists>info. requestInfo toCIDR n ?rel addrs e space = Inr info)"
    using infos by simp
  have "processWithRelation toCIDR n ?bound ?rel = Inr ?results'"
    unfolding processWithRelation_Inr_iff using a infos' by blast
  with relok have p': "ProcessAPIRequest toCIDR n (args \<lparr> Endpoints := ?bound \<rparr>) = Some (Inr ?results')"
    by (simp add: ProcessAPIRequest_Inr_iff)
  have d': "dom ?results' = {e \<in> set ?eps. bindings n e \<noteq> None}"
    using requestResults_dom [OF infos'] by simp
  have same: "\<forall>e. bindings n e \<noteq> None \<longrightarrow> ?results' e = results e"
    by (auto simp: r requestResults_def)
  from d u b p' d' same show ?thesis by blast
qed

lemma mysql_request_server_db:
  "\<exists>results. ProcessAPIRequest hostCIDR mysqlBase \<lparr> Endpoints = [''server'', ''db''], RelationId = None \<rparr>
       = Some (Inr results)
     \<and> results ''db'' = Some \<lparr> Info = [], EgressSubnets = [], IngressAddresses = [],
                               Error = Some (NotValid ''db'') \<rparr>
     \<and> results ''server'' = Some
          \<lparr> Info = [\<lparr> MACAddress = [], InterfaceName = [],
                      Addresses = [\<lparr> Hostname = [], Address = ''127.0.0.1'', CIDR = [] \<rparr>] \<rparr>],
            EgressSubnets = [''0.0.0.0/0''],
            IngressAddresses = [''54.32.1.2'', ''252.0.16.1''],
            Error = None \<rparr>"
  by (simp add: request_eval mysql_eval)

theorem one_result_per_requested_endpoint_witness:
  "\<exists>results. ProcessAPIRequest hostCIDR mysqlBase \<lparr> Endpoints = [''server'', ''db''], RelationId = None \<rparr>
       = Some (Inr results)
     \<and> dom results = {''server'', ''db''}
     \<and> bindings mysqlBase ''db'' = None
     \<and> results ''db'' = Some (bindingNotDefined ''db'')
     \<and> results ''server'' = Some
          \<lparr> Info = [\<lparr> MACAddress = [], InterfaceName = [],
                      Addresses = [\<lparr> Hostname = [], Address = ''127.0.0.1'', CIDR = [] \<rparr>] \<rparr>],
            EgressSubnets = [''0.0.0.0/0''],
            IngressAddresses = [''54.32.1.2'', ''252.0.16.1''],
            Error = None \<rparr>"
proof -
  let ?args = "\<lparr> Endpoints = [''server'', ''db''], RelationId = None \<rparr>"
  from mysql_request_server_db obtain results where
    r: "ProcessAPIRequest hostCIDR mysqlBase ?args = Some (Inr results)"
    and s: "results ''server'' = Some
          \<lparr> Info = [\<lparr> MACAddress = [], InterfaceName = [],
                      Addresses = [\<lparr> Hostname = [], Address = ''127.0.0.1'', CIDR = [] \<rparr>] \<rparr>],
            EgressSubnets = [''0.0.0.0/0''],
            IngressAddresses = [''54.32.1.2'', ''252.0.16.1''],
            Error = None \<rparr>"
    by blast
  have b: "bindings mysqlBase ''db'' = None"
    by (simp add: mysqlBase_def)
  note t = one_result_per_requested_endpoint [OF r]
  from t have d: "dom results = {''server'', ''db''}" by simp
  from t b have u: "results ''db'' = Some (bindingNotDefined ''db'')" by simp
  from r d b u s show ?thesis by blast
qed

lemma requestInfo_other_endpoint:
  "e \<noteq> relEndpoint \<Longrightarrow>
   requestInfo toCIDR n (Some (relEndpoint, ingress, egress)) addrs e space
     = requestInfo toCIDR n None addrs e space"
  unfolding requestInfo_def
  by (rule endpointInfo_cong)
    (simp_all add: lookupList_def endpointEgress_def relationIngressAddresses_def)

lemma requestInfo_relation_endpoint:
  assumes "requestInfo toCIDR n (Some (relEndpoint, ingress, egress)) addrs relEndpoint space = Inr info"
  shows "(ingress \<noteq> [] \<longrightarrow> IngressAddresses info = map Value ingress)
    \<and> (egress \<noteq> [] \<longrightarrow> EgressSubnets info = egress)"
  using endpointInfo_Inr [OF assms [unfolded requestInfo_def]]
  by (simp add: lookupList_def endpointEgress_def relationIngressAddresses_def)

text \<open>
  Claim C10. In \<^verbatim>\<open>ProcessAPIRequest\<close> the ingress and egress resolved for a relation
  appear only under the endpoint name of the relation. The results of all other names are
  those of the request made without the relation and without that name; when the endpoint
  of the relation is not requested, or has no binding, the response is the one of the same
  request without the relation; and when it is requested and bound, its result carries the
  (deduplicated) ingress and egress of the relation wherever these are not empty.
\<close>

theorem relation_data_only_under_its_endpoint:
  assumes ok: "ProcessAPIRequest toCIDR n args = Some (Inr results)"
    and rid: "RelationId args = Some relationId"
    and rel: "getRelationNetworkInfo toCIDR n relationId
        = Some (Inr (relEndpoint, space, ingress, egress))"
  shows "(\<exists>results0.
        ProcessAPIRequest toCIDR n
            (args \<lparr> Endpoints := filter (\<lambda>e. e \<noteq> relEndpoint) (Endpoints args), RelationId := None \<rparr>)
          = Some (Inr results0)
        \<and> (\<forall>e. e \<noteq> relEndpoint \<longrightarrow> results e = results0 e))
    \<and> (relEndpoint \<notin> set (Endpoints args) \<or> bindings n relEndpoint = None \<longrightarrow>
          ProcessAPIRequest toCIDR n (args \<lparr> RelationId := None \<rparr>) = Some (Inr results))
    \<and> (\<forall>res. results relEndpoint = Some res \<and> Error res = None \<longrightarrow>
          (ingress \<noteq> [] \<longrightarrow>
             IngressAddresses res = dedupStringListPreservingOrder (map Value ingress))
          \<and> (egress \<noteq> [] \<longrightarrow> EgressSubnets res = dedupStringListPreservingOrder egress))"
proof -
  let ?eps = "Endpoints args"
  let ?others = "filter (\<lambda>e. e \<noteq> relEndpoint) ?eps"
  let ?rel = "Some (relEndpoint, ingress, egress)"
  have rr: "resolvedRelation toCIDR n args = ?rel"
    by (simp add: resolvedRelation_def rid rel)
  from ok have p: "processWithRelation toCIDR n ?eps ?rel = Inr results"
    by (simp add: ProcessAPIRequest_Inr_iff rr)
  then obtain addrs where a: "AllAddresses (unit n) = Inr addrs"
    and infos: "\<forall>e \<in> set ?eps. \<forall>space. bindings n e = Some space \<longrightarrow>
              (\<exists>info. requestInfo toCIDR n ?rel addrs e space = Inr info)"
    and r: "results = requestResults toCIDR n ?rel addrs ?eps"
    unfolding processWithRelation_Inr_iff by blast
  have none: "resolvedRelation toCIDR n (args \<lparr> Endpoints := eps, RelationId := None \<rparr>) = None" for eps
    by (simp add: resolvedRelation_def)
  have none': "resolvedRelation toCIDR n (args \<lparr> RelationId := None \<rparr>) = None"
    by (simp add: resolvedRelation_def)
  \<comment> \<open>the other endpoints\<close>
  let ?results0 = "requestResults toCIDR n None addrs ?others"
  have infos0: "\<forall>e \<in> set ?others. \<forall>space. bindings n e = Some space \<longrightarrow>
              (\<exists>info. requestInfo toCIDR n None addrs e space = Inr info)"
    using infos by (auto simp: requestInfo_other_endpoint)
  have "processWithRelation toCIDR n ?others None = Inr ?results0"
    unfolding processWithRelation_Inr_iff using a infos0 by blast
  then have p0: "ProcessAPIRequest toCIDR n (args \<lparr> Endpoints := ?others, RelationId := None \<rparr>)
      = Some (Inr ?results0)"
    by (simp add: ProcessAPIRequest_Inr_iff none)
  have same: "\<forall>e. e \<noteq> relEndpoint \<longrightarrow> results e = ?results0 e"
    by (auto simp: r requestResults_def requestInfo_other_endpoint split: option.splits)
  from p0 same have first: "\<exists>results0.
        ProcessAPIRequest toCIDR n (args \<lparr> Endpoints := ?others, RelationId := None \<rparr>)
          = Some (Inr results0)
        \<and> (\<forall>e. e \<noteq> relEndpoint \<longrightarrow> results e = results0 e)"
    by blast
  \<comment> \<open>the endpoint of the relation is not among the bound requested endpoints\<close>
  have second: "relEndpoint \<notin> set ?eps \<or> bindings n relEndpoint = None \<longrightarrow>
          ProcessAPIRequest toCIDR n (args \<lparr> RelationId := None \<rparr>) = Some (Inr results)"
  proof
    assume absent: "relEndpoint \<notin> set ?eps \<or> bindings n relEndpoint = None"
    have i: "\<forall>e \<in> set ?eps. \<forall>space. bindings n e = Some space \<longrightarrow>
        requestInfo toCIDR n ?rel addrs e space = requestInfo toCIDR n None addrs e space"
    proof (intro ballI allI impI)
      fix e space' assume "e \<in> set ?eps" and "bindings n e = Some space'"
      with absent have "e \<noteq> relEndpoint" by auto
      then show "requestInfo toCIDR n ?rel addrs e space' = requestInfo toCIDR n None addrs e space'"
        by (rule requestInfo_other_endpoint)
    qed
    have infosN: "\<forall>e \<in> set ?eps. \<forall>space. bindings n e = Some space \<longrightarrow>
              (\<exists>info. requestInfo toCIDR n None addrs e space = Inr info)"
      using infos i by simp
    have "requestResults toCIDR n None addrs ?eps = results"
      unfolding r using i
      by (auto simp: requestResults_def fun_eq_iff split: option.splits)
    with a infosN have "processWithRelation toCIDR n ?eps None = Inr results"
      unfolding processWithRelation_Inr_iff by blast
    then show "ProcessAPIRequest toCIDR n (args \<lparr> RelationId := None \<rparr>) = Some (Inr results)"
      by (simp add: ProcessAPIRequest_Inr_iff none')
  qed
  \<comment> \<open>the endpoint of the relation\<close>
  have third: "\<forall>res. results relEndpoint = Some res \<and> Error res = None \<longrightarrow>
          (ingress \<noteq> [] \<longrightarrow>
             IngressAddresses res = dedupStringListPreservingOrder (map Value ingress))
          \<and> (egress \<noteq> [] \<longrightarrow> EgressSubnets res = dedupStringListPreservingOrder egress)"
  proof (intro allI impI)
    fix res assume h: "results relEndpoint = Some res \<and> Error res = None"
    then have mem: "relEndpoint \<in> set ?eps"
      by (auto simp: r requestResults_def split: if_splits)
    from h mem obtain sp where b: "bindings n relEndpoint = Some sp"
      by (cases "bindings n relEndpoint") (auto simp: r requestResults_def bindingNotDefined_def)
    with infos mem obtain info where
      i: "requestInfo toCIDR n ?rel addrs relEndpoint sp = Inr info" by blast
    with h mem b have res: "res = dedupResult info"
      by (simp add: r requestResults_def)
    have e: "Error info = None" by (rule requestInfo_no_error [OF i])
    from requestInfo_relation_endpoint [OF i] e
    show "(ingress \<noteq> [] \<longrightarrow>
             IngressAddresses res = dedupStringListPreservingOrder (map Value ingress))
          \<and> (egress \<noteq> [] \<longrightarrow> EgressSubnets res = dedupStringListPreservingOrder egress)"
      by (simp add: res dedupResult_def)
  qed
  from first second third show ?thesis by blast
qed

lemma mysql_relation_0:
  "getRelationNetworkInfo hostCIDR mysqlBase 0
     = Some (Inr (''server'', AlphaSpaceId,
         [\<lparr> Value = ''54.32.1.2'', Scope = ScopePublic \<rparr>,
          \<lparr> Value = ''252.0.16.1'', Scope = ScopeFanLocal \<rparr>], [''10.0.0.0/24'']))"
  by (simp add: relation_eval mysql_eval SortAddresses_def)

lemma mysql_request_relation_0:
  "\<exists>results. ProcessAPIRequest hostCIDR mysqlBase
         \<lparr> Endpoints = [''cluster'', ''server''], RelationId = Some 0 \<rparr> = Some (Inr results)
     \<and> results ''cluster'' = Some
          \<lparr> Info = [\<lparr> MACAddress = [], InterfaceName = [],
                      Addresses = [\<lparr> Hostname = [], Address = ''127.0.0.1'', CIDR = [] \<rparr>] \<rparr>],
            EgressSubnets = [''0.0.0.0/0''],
            IngressAddresses = [''54.32.1.2'', ''252.0.16.1''],
            Error = None \<rparr>
     \<and> results ''server'' = Some
          \<lparr> Info = [\<lparr> MACAddress = [], InterfaceName = [],
                      Addresses = [\<lparr> Hostname = [], Address = ''127.0.0.1'', CIDR = [] \<rparr>] \<rparr>],
            EgressSubnets = [''10.0.0.0/24''],
            IngressAddresses = [''54.32.1.2'', ''252.0.16.1''],
            Error = None \<rparr>"
  by (simp add: request_eval relation_eval mysql_eval)

lemma mysql_request_cluster_relation_0:
  "\<exists>results. ProcessAPIRequest hostCIDR mysqlBase
         \<lparr> Endpoints = [''cluster''], RelationId = Some 0 \<rparr> = Some (Inr results)"
  by (simp add: request_eval relation_eval mysql_eval)

theorem relation_data_only_under_its_endpoint_witness:
  "(\<exists>results results0.
      ProcessAPIRequest hostCIDR mysqlBase \<lparr> Endpoints = [''cluster'', ''server''], RelationId = Some 0 \<rparr>
        = Some (Inr results)
      \<and> ProcessAPIRequest hostCIDR mysqlBase \<lparr> Endpoints = [''cluster''], RelationId = None \<rparr>
        = Some (Inr results0)
      \<and> results ''cluster'' = results0 ''cluster''
      \<and> (\<exists>res. results ''server'' = Some res \<and> Error res = None
            \<and> IngressAddresses res = [''54.32.1.2'', ''252.0.16.1'']
            \<and> EgressSubnets res = [''10.0.0.0/24'']))
   \<and> (\<exists>results.
      ProcessAPIRequest hostCIDR mysqlBase \<lparr> Endpoints = [''cluster''], RelationId = Some 0 \<rparr>
        = Some (Inr results)
      \<and> ProcessAPIRequest hostCIDR mysqlBase \<lparr> Endpoints = [''cluster''], RelationId = None \<rparr>
        = Some (Inr results))"
proof -
  let ?both = "\<lparr> Endpoints = [''cluster'', ''server''], RelationId = Some 0 \<rparr>"
  let ?one = "\<lparr> Endpoints = [''cluster''], RelationId = Some 0 \<rparr>"
  let ?ingress = "[\<lparr> Value = ''54.32.1.2'', Scope = ScopePublic \<rparr>,
          \<lparr> Value = ''252.0.16.1'', Scope = ScopeFanLocal \<rparr>]"
  from mysql_request_relation_0 obtain results where
    r: "ProcessAPIRequest hostCIDR mysqlBase ?both = Some (Inr results)"
    and s: "\<exists>res. results ''server'' = Some res \<and> Error res = None
            \<and> IngressAddresses res = [''54.32.1.2'', ''252.0.16.1'']
            \<and> EgressSubnets res = [''10.0.0.0/24'']"
    by force
  have id0: "RelationId ?both = Some 0" by simp
  note t = relation_data_only_under_its_endpoint [OF r id0 mysql_relation_0, THEN conjunct1]
  then obtain results0 where
    r0: "ProcessAPIRequest hostCIDR mysqlBase \<lparr> Endpoints = [''cluster''], RelationId = None \<rparr>
        = Some (Inr results0)"
    and c: "results ''cluster'' = results0 ''cluster''"
    by auto
  from r r0 c s have first: "\<exists>results results0.
      ProcessAPIRequest hostCIDR mysqlBase ?both = Some (Inr results)
      \<and> ProcessAPIRequest hostCIDR mysqlBase \<lparr> Endpoints = [''cluster''], RelationId = None \<rparr>
        = Some (Inr results0)
      \<and> results ''cluster'' = results0 ''cluster''
      \<and> (\<exists>res. results ''server'' = Some res \<and> Error res = None
            \<and> IngressAddresses res = [''54.32.1.2'', ''252.0.16.1'']
            \<and> EgressSubnets res = [''10.0.0.0/24''])"
    by blast
  from mysql_request_cluster_relation_0 obtain results1 where
    r1: "ProcessAPIRequest hostCIDR mysqlBase ?one = Some (Inr results1)" by blast
  have id1: "RelationId ?one = Some 0" by simp
  from relation_data_only_under_its_endpoint
    [OF r1 id1 mysql_relation_0, THEN conjunct2, THEN conjunct1]
  have "ProcessAPIRequest hostCIDR mysqlBase \<lparr> Endpoints = [''cluster''], RelationId = None \<rparr>
        = Some (Inr results1)"
    by simp
  with r1 have second: "\<exists>results.
      ProcessAPIRequest hostCIDR mysqlBase ?one = Some (Inr results)
      \<and> ProcessAPIRequest hostCIDR mysqlBase \<lparr> Endpoints = [''cluster''], RelationId = None \<rparr>
        = Some (Inr results)"
    by blast
  from first second show ?thesis by blast
qed

subsection \<open>Facts about polling for the unit address\<close>

lemma pollForAddress_returns:
  "0 < Delay retryArg \<Longrightarrow> \<exists>r. pollForAddress retryArg fetcher = Some r"
  using retryLoop_returns [of retryArg pollIsFatalError fetcher 0 0]
  by (auto simp: pollForAddress_def retryCall_def)

lemma pollPrivateAddress_Some:
  "pollPrivateAddress n = Some r \<Longrightarrow>
     \<exists>addrs. r = Inr addrs \<and> (\<forall>a \<in> set addrs. Value a \<noteq> [])"
  by (auto simp: pollPrivateAddress_def split: bind_splits sum.splits if_splits)

lemma pollPrivateAddress_returns:
  "0 < Delay (retryFactory n) \<Longrightarrow> \<exists>r. pollPrivateAddress n = Some r"
  using pollForAddress_returns [of "retryFactory n" "PrivateAddress (unit n)"]
  by (auto simp: pollPrivateAddress_def)

lemma pollPrivateAddress_eq:
  "pollForAddress (retryFactory n) (PrivateAddress (unit n)) = Some p \<Longrightarrow>
   pollPrivateAddress n =
     Some (case p of Inl err \<Rightarrow> Inr []
           | Inr address \<Rightarrow> if Value address \<noteq> [] then Inr [address] else Inr [])"
  by (simp add: pollPrivateAddress_def)

lemma maybeGetUnitAddress_returns:
  assumes "0 < Delay (retryFactory n)"
  shows "\<exists>r. maybeGetUnitAddress n rel = Some r"
proof -
  from pollForAddress_returns [OF assms, of "PublicAddress (unit n)"]
  obtain p where p: "pollForAddress (retryFactory n) (PublicAddress (unit n)) = Some p" by blast
  from pollPrivateAddress_returns [OF assms]
  obtain q where q: "pollPrivateAddress n = Some q" by blast
  show ?thesis
    using p q by (auto simp: maybeGetUnitAddress_def split: sum.splits)
qed

lemma maybeGetUnitAddress_Inr:
  "maybeGetUnitAddress n rel = Some (Inr addrs) \<Longrightarrow> \<forall>a \<in> set addrs. Value a \<noteq> []"
  by (auto simp: maybeGetUnitAddress_def split: sum.splits if_splits bind_splits
      dest!: pollPrivateAddress_Some)

lemma maybeGetUnitAddress_Inl_iff:
  "maybeGetUnitAddress n rel = Some (Inl err) \<longleftrightarrow> RemoteApplication rel = Inl err"
  by (auto simp: maybeGetUnitAddress_def split: sum.splits if_splits bind_splits
      dest!: pollPrivateAddress_Some)

text \<open>
  Claim C9. \<^verbatim>\<open>maybeGetUnitAddress\<close> (with a positive delay in the retry policy, so
  that the polls return) returns, and never returns an address whose value is the empty
  string. When the relation is cross-model and polling the public address succeeds with an
  empty value, its result is that of polling the private address: the private address if that
  poll succeeds with a non-empty value, and otherwise (an empty value or a failed poll) the
  empty result without an error.
\<close>

theorem maybeGetUnitAddress_no_empty_value:
  assumes delay: "0 < Delay (retryFactory n)"
  shows "\<exists>r. maybeGetUnitAddress n rel = Some r
    \<and> (\<forall>addrs. r = Inr addrs \<longrightarrow> (\<forall>a \<in> set addrs. Value a \<noteq> []))
    \<and> (\<forall>address. RemoteApplication rel = Inr True
          \<and> pollForAddress (retryFactory n) (PublicAddress (unit n)) = Some (Inr address)
          \<and> Value address = [] \<longrightarrow>
          (\<exists>p. pollForAddress (retryFactory n) (PrivateAddress (unit n)) = Some p
             \<and> r = (case p of
                      Inl err \<Rightarrow> Inr []
                    | Inr private \<Rightarrow> if Value private \<noteq> [] then Inr [private] else Inr [])))"
proof -
  from maybeGetUnitAddress_returns [OF delay]
  obtain r where r: "maybeGetUnitAddress n rel = Some r" by blast
  have nonempty: "\<forall>addrs. r = Inr addrs \<longrightarrow> (\<forall>a \<in> set addrs. Value a \<noteq> [])"
    using r maybeGetUnitAddress_Inr [of n rel] by blast
  have fall: "\<forall>address. RemoteApplication rel = Inr True
          \<and> pollForAddress (retryFactory n) (PublicAddress (unit n)) = Some (Inr address)
          \<and> Value address = [] \<longrightarrow>
          (\<exists>p. pollForAddress (retryFactory n) (PrivateAddress (unit n)) = Some p
             \<and> r = (case p of
                      Inl err \<Rightarrow> Inr []
                    | Inr private \<Rightarrow> if Value private \<noteq> [] then Inr [private] else Inr []))"
  proof (intro allI impI)
    fix address
    assume h: "RemoteApplication rel = Inr True
          \<and> pollForAddress (retryFactory n) (PublicAddress (unit n)) = Some (Inr address)
          \<and> Value address = []"
    from pollForAddress_returns [OF delay, of "PrivateAddress (unit n)"]
    obtain p where p: "pollForAddress (retryFactory n) (PrivateAddress (unit n)) = Some p"
      by blast
    from h have "maybeGetUnitAddress n rel = pollPrivateAddress n"
      by (simp add: maybeGetUnitAddress_def)
    with r pollPrivateAddress_eq [OF p]
    have "r = (case p of
                      Inl err \<Rightarrow> Inr []
                    | Inr private \<Rightarrow> if Value private \<noteq> [] then Inr [private] else Inr [])"
      by simp
    with p show "\<exists>p. pollForAddress (retryFactory n) (PrivateAddress (unit n)) = Some p
             \<and> r = (case p of
                      Inl err \<Rightarrow> Inr []
                    | Inr private \<Rightarrow> if Value private \<noteq> [] then Inr [private] else Inr [])"
      by blast
  qed
  from r nonempty fall show ?thesis by blast
qed

lemma emptyPublic_polls:
  "pollForAddress (retryFactory emptyPublicBase) (PublicAddress (unit emptyPublicBase))
     = Some (Inr \<lparr> Value = [], Scope = ScopeUnknown \<rparr>)
   \<and> pollForAddress (retryFactory emptyPublicBase) (PrivateAddress (unit emptyPublicBase))
     = Some (Inl (NoAddress ''no public address''))"
  by (simp add: emptyPublicBase_def emptyPublic_def mysqlBase_def mysqlUnit_def neverAssigned_def
      pollForAddress_def retryCall_def pollIsFatalError_def retryLoop.simps defaultRetryFactory_def)

theorem maybeGetUnitAddress_no_empty_value_witness:
  "0 < Delay (retryFactory emptyPublicBase)
   \<and> RemoteApplication (serverRelation ''remote-wiki:db mysql:server'' True) = Inr True
   \<and> pollForAddress (retryFactory emptyPublicBase) (PublicAddress (unit emptyPublicBase))
       = Some (Inr \<lparr> Value = [], Scope = ScopeUnknown \<rparr>)
   \<and> pollForAddress (retryFactory emptyPublicBase) (PrivateAddress (unit emptyPublicBase))
       = Some (Inl (NoAddress ''no public address''))
   \<and> maybeGetUnitAddress emptyPublicBase (serverRelation ''remote-wiki:db mysql:server'' True)
       = Some (Inr [])"
proof -
  let ?rel = "serverRelation ''remote-wiki:db mysql:server'' True"
  have d: "0 < Delay (retryFactory emptyPublicBase)"
    by (simp add: emptyPublicBase_def mysqlBase_def defaultRetryFactory_def)
  have c: "RemoteApplication ?rel = Inr True"
    by (simp add: serverRelation_def)
  note pub = emptyPublic_polls [THEN conjunct1]
  note priv = emptyPublic_polls [THEN conjunct2]
  from maybeGetUnitAddress_no_empty_value [OF d, of ?rel]
  obtain r where r: "maybeGetUnitAddress emptyPublicBase ?rel = Some r"
    and f: "\<forall>address. RemoteApplication ?rel = Inr True
          \<and> pollForAddress (retryFactory emptyPublicBase) (PublicAddress (unit emptyPublicBase))
              = Some (Inr address)
          \<and> Value address = [] \<longrightarrow>
          (\<exists>p. pollForAddress (retryFactory emptyPublicBase) (PrivateAddress (unit emptyPublicBase))
                = Some p
             \<and> r = (case p of
                      Inl err \<Rightarrow> Inr []
                    | Inr private \<Rightarrow> if Value private \<noteq> [] then Inr [private] else Inr []))"
    by blast
  from f [rule_format, of "\<lparr> Value = [], Scope = ScopeUnknown \<rparr>"] c pub priv
  have "r = Inr []" by simp
  with r d c pub priv show ?thesis by simp
qed

lemma relationNetworks_Inl_iff:
  "relationNetworks toCIDR n egress polled = Inl err \<longleftrightarrow>
     egress = []
     \<and> SortAddresses (if polled = [] then nonLocalAddresses (AllAddresses (unit n)) else polled) \<noteq> []
     \<and> toCIDR (Value (hd (SortAddresses
          (if polled = [] then nonLocalAddresses (AllAddresses (unit n)) else polled)))) = Inl err"
  by (auto simp: relationNetworks_def Let_def split: sum.splits)

lemma getRelationEgressSubnets_Inl_iff:
  "getRelationEgressSubnets n rel = Inl err \<longleftrightarrow>
     RelationEgressNetworks (st n) (RelationTagId rel) = Inl err \<and> \<not> IsNotFound err"
  by (auto simp: getRelationEgressSubnets_def split: sum.splits if_splits)

text \<open>
  Claim C7, as stated, fails: an error of the lookup of the addresses of the unit is not
  propagated by \<^verbatim>\<open>NetworksForRelation\<close>. The store of the unit below cannot read the
  addresses, and the call returns a result.
\<close>

theorem NetworksForRelation_recovers_address_error:
  "AllAddresses (unit brokenAddressesBase) = Inl (Fatal ''connection is shut down'')
   \<and> \<not> IsNotFound (Fatal ''connection is shut down'')
   \<and> NetworksForRelation hostCIDR brokenAddressesBase ''server''
         (serverRelation ''wordpress:db mysql:server'' False) False
       = Some (Inr (AlphaSpaceId, [], [''10.0.0.0/24'']))"
  by (simp add: brokenAddressesBase_def relation_eval mysql_eval SortAddresses_def)

text \<open>
  Claim C7, amended. \<^verbatim>\<open>NetworksForRelation\<close> returns an error exactly in three cases,
  and then returns that error unchanged: the lookup of the egress of the relation fails with
  an error other than not-found; polling is asked for and the lookup of the remote
  application fails; or the egress is empty and the first ingress address cannot be formatted
  as a CIDR. Errors of the lookups of the public, private and all addresses of the unit are
  recovered (logged, and treated as no address), as is a not-found of the egress lookup.
\<close>

theorem NetworksForRelation_error_iff:
  "NetworksForRelation toCIDR n binding rel pollAddr = Some (Inl err) \<longleftrightarrow>
     (RelationEgressNetworks (st n) (RelationTagId rel) = Inl err \<and> \<not> IsNotFound err)
     \<or> (\<exists>egress. getRelationEgressSubnets n rel = Inr egress
          \<and> ((pollAddr \<and> RemoteApplication rel = Inl err)
             \<or> (\<exists>polled ingress.
                  (if pollAddr then maybeGetUnitAddress n rel = Some (Inr polled) else polled = [])
                  \<and> ingress = SortAddresses
                      (if polled = [] then nonLocalAddresses (AllAddresses (unit n)) else polled)
                  \<and> egress = [] \<and> ingress \<noteq> [] \<and> toCIDR (Value (hd ingress)) = Inl err)))"
proof (cases "getRelationEgressSubnets n rel")
  case (Inl e)
  then have "RelationEgressNetworks (st n) (RelationTagId rel) = Inl e \<and> \<not> IsNotFound e"
    by (simp add: getRelationEgressSubnets_Inl_iff)
  with Inl show ?thesis
    by (auto simp: NetworksForRelation_def)
next
  case (Inr egress)
  then have no: "\<not> (RelationEgressNetworks (st n) (RelationTagId rel) = Inl err \<and> \<not> IsNotFound err)"
    using getRelationEgressSubnets_Inl_iff [of n rel err] by simp
  show ?thesis
  proof (cases pollAddr)
    case False
    with Inr no show ?thesis
      by (auto simp: NetworksForRelation_def relationNetworks_Inl_iff)
  next
    case True
    show ?thesis
    proof (cases "maybeGetUnitAddress n rel")
      case None
      then have "RemoteApplication rel \<noteq> Inl err"
        using maybeGetUnitAddress_Inl_iff [of n rel err] by simp
      with None Inr no True show ?thesis
        by (auto simp: NetworksForRelation_def)
    next
      case (Some r)
      show ?thesis
      proof (cases r)
        case (Inl e)
        with Some have "RemoteApplication rel = Inl e"
          by (simp add: maybeGetUnitAddress_Inl_iff)
        with Some Inl Inr no True show ?thesis
          by (auto simp: NetworksForRelation_def)
      next
        case r: (Inr polled)
        with Some have "RemoteApplication rel \<noteq> Inl err"
          using maybeGetUnitAddress_Inl_iff [of n rel err] by simp
        with Some r Inr no True show ?thesis
          by (auto simp: NetworksForRelation_def relationNetworks_Inl_iff)
      qed
    qed
  qed
qed

theorem NetworksForRelation_error_iff_witness:
  "NetworksForRelation hostCIDR brokenEgressBase ''server''
       (serverRelation ''wordpress:db mysql:server'' False) False
     = Some (Inl (Fatal ''connection is shut down''))
   \<and> NetworksForRelation hostCIDR mysqlBase ''server'' lostRemoteRelation True
     = Some (Inl (NotFound ''remote application not found''))
   \<and> NetworksForRelation hostCIDR brokenAddressesBase ''server''
         (serverRelation ''wordpress:db mysql:server'' False) False
     \<noteq> Some (Inl (Fatal ''connection is shut down''))"
proof -
  let ?rel = "serverRelation ''wordpress:db mysql:server'' False"
  have a: "RelationEgressNetworks (st brokenEgressBase) (RelationTagId ?rel)
        = Inl (Fatal ''connection is shut down'')
      \<and> \<not> IsNotFound (Fatal ''connection is shut down'')"
    by (simp add: brokenEgressBase_def mysqlBase_def)
  have first: "NetworksForRelation hostCIDR brokenEgressBase ''server'' ?rel False
     = Some (Inl (Fatal ''connection is shut down''))"
    unfolding NetworksForRelation_error_iff using a by blast
  have b: "getRelationEgressSubnets mysqlBase lostRemoteRelation = Inr [''0.0.0.0/0'']
      \<and> RemoteApplication lostRemoteRelation = Inl (NotFound ''remote application not found'')"
    by (simp add: getRelationEgressSubnets_def lostRemoteRelation_def mysql_eval)
  have second: "NetworksForRelation hostCIDR mysqlBase ''server'' lostRemoteRelation True
     = Some (Inl (NotFound ''remote application not found''))"
    unfolding NetworksForRelation_error_iff using b by blast
  have c: "RelationEgressNetworks (st brokenAddressesBase) (RelationTagId ?rel) = Inr [''10.0.0.0/24'']
      \<and> getRelationEgressSubnets brokenAddressesBase ?rel = Inr [''10.0.0.0/24'']"
    by (simp add: getRelationEgressSubnets_def brokenAddressesBase_def mysql_eval)
  have third: "NetworksForRelation hostCIDR brokenAddressesBase ''server'' ?rel False
     \<noteq> Some (Inl (Fatal ''connection is shut down''))"
    unfolding NetworksForRelation_error_iff using c by simp
  from first second third show ?thesis by blast
qed

text \<open>
  The polling scenario of the spec, run on the model: a cross-model relation of a unit whose
  public address never appears and whose private address appears after two retries, in a
  model without default egress.
\<close>

lemma mysqlNoEgress_cross_model:
  "NetworksForRelation hostCIDR mysqlNoEgress ''server''
       (serverRelation ''remote-wiki:db mysql:server'' True) True
     = Some (Inr (AlphaSpaceId, [\<lparr> Value = ''10.1.2.3'', Scope = ScopeFanLocal \<rparr>],
         [''10.1.2.3/32'']))
   \<and> retryCall defaultRetryFactory pollIsFatalError privateAfterTwoRetries
     = Some (Inr \<lparr> Value = ''10.1.2.3'', Scope = ScopeFanLocal \<rparr>, 2, 6)"
  by (simp add: relation_eval mysql_eval SortAddresses_def)

end
